theory Spec2Isabelle
  imports Complex_Main
begin

section \<open>Diagnostics and the validation result\<close>

text \<open>
  The embedding follows the YAML/JSON document model and schema validator of
  \<^verbatim>\<open>server/src/yaml\<close> (classes \<^verbatim>\<open>ASTNode\<close> and its subclasses,
  \<^verbatim>\<open>ValidationResult\<close>, \<^verbatim>\<open>YAMLDocument\<close>).

  JavaScript numbers are IEEE doubles. Source offsets and the match counters only ever
  hold integers, so offsets are \<open>int\<close> and counters are \<open>nat\<close> (they start at 0 in
  the constructor and are only incremented or added to each other). Numbers that come
  from a document or a schema are \<open>jsnum\<close>: a rational or \<open>NaN\<close>; rounding and
  infinities are outside the model.
\<close>

datatype jsnum = NaN | Num rat

text \<open>Plain values, as \<^verbatim>\<open>getValue()\<close> produces them and as \<^verbatim>\<open>enum\<close> lists them.\<close>

datatype jval =
    JUndefined
  | JNull
  | JBool bool
  | JNum jsnum
  | JStr string
  | JArr "jval list"
  | JObj "(string \<times> jval) list"

text \<open>
  \<^verbatim>\<open>localize(key, template, args...)\<close> belongs to the \<^verbatim>\<open>vscode-nls\<close> library; a
  localized message is kept as its key and its arguments. \<open>Custom\<close> is a text taken
  verbatim from the schema (\<^verbatim>\<open>schema.errorMessage\<close>).
\<close>

datatype marg = ArgStr string | ArgNum jsnum | ArgVal jval | ArgVals "jval list" | ArgCount nat

datatype message = Custom string | Localize string "marg list"

record IRange =
  range_start :: int
  range_end :: int

record IError =
  location :: IRange
  message :: message

record ValidationResult =
  errors :: "IError list"
  warnings :: "IError list"
  propertiesMatches :: nat
  propertiesValueMatches :: nat
  enumValueMatch :: bool

definition new_ValidationResult :: ValidationResult where
  "new_ValidationResult =
     \<lparr>errors = [], warnings = [], propertiesMatches = 0, propertiesValueMatches = 0,
      enumValueMatch = False\<rparr>"

definition hasErrors :: "ValidationResult \<Rightarrow> bool" where
  "hasErrors r = (\<not> (errors r = [] \<and> warnings r = []))"

definition merge :: "ValidationResult \<Rightarrow> ValidationResult \<Rightarrow> ValidationResult" where
  "merge this validationResult =
     this\<lparr>errors := errors this @ errors validationResult,
          warnings := warnings this @ warnings validationResult\<rparr>"

definition mergeAll :: "ValidationResult \<Rightarrow> ValidationResult list \<Rightarrow> ValidationResult" where
  "mergeAll this validationResults = foldl merge this validationResults"

text \<open>
  \<^verbatim>\<open>mergePropertyMatch\<close>: the argument is a result distinct from \<^verbatim>\<open>this\<close> (every call
  site passes a freshly created one). A counter is truthy when it is not 0.
\<close>

definition mergePropertyMatch :: "ValidationResult \<Rightarrow> ValidationResult \<Rightarrow> ValidationResult" where
  "mergePropertyMatch this propertyValidationResult =
     (let r1 = merge this propertyValidationResult;
          r2 = r1\<lparr>propertiesMatches := propertiesMatches r1 + 1\<rparr>
      in if enumValueMatch propertyValidationResult
            \<or> (\<not> hasErrors propertyValidationResult
                \<and> propertiesMatches propertyValidationResult \<noteq> 0)
         then r2\<lparr>propertiesValueMatches := propertiesValueMatches r2 + 1\<rparr>
         else r2)"

definition compare :: "ValidationResult \<Rightarrow> ValidationResult \<Rightarrow> int" where
  "compare this other =
     (let hasErrs = hasErrors this in
      if hasErrs \<noteq> hasErrors other then (if hasErrs then - 1 else 1)
      else if enumValueMatch this \<noteq> enumValueMatch other
        then (if enumValueMatch other then - 1 else 1)
      else if propertiesValueMatches this \<noteq> propertiesValueMatches other
        then int (propertiesValueMatches this) - int (propertiesValueMatches other)
      else int (propertiesMatches this) - int (propertiesMatches other))"

text \<open>
  The ranking as the specification words it: \<open>ranks_above a b\<close> holds when \<open>a\<close> wins
  over \<open>b\<close> at the first of the four criteria on which they differ.
\<close>

definition clean :: "ValidationResult \<Rightarrow> bool" where
  "clean r = (errors r = [] \<and> warnings r = [])"

definition ranks_above :: "ValidationResult \<Rightarrow> ValidationResult \<Rightarrow> bool" where
  "ranks_above a b =
     (if clean a \<noteq> clean b then clean a
      else if enumValueMatch a \<noteq> enumValueMatch b then enumValueMatch a
      else if propertiesValueMatches a \<noteq> propertiesValueMatches b
        then propertiesValueMatches b < propertiesValueMatches a
      else propertiesMatches b < propertiesMatches a)"

definition complete_tie :: "ValidationResult \<Rightarrow> ValidationResult \<Rightarrow> bool" where
  "complete_tie a b =
     (clean a = clean b \<and> enumValueMatch a = enumValueMatch b
      \<and> propertiesValueMatches a = propertiesValueMatches b
      \<and> propertiesMatches a = propertiesMatches b)"

section \<open>The document node model\<close>

text \<open>
  One constructor per node class; the \<^verbatim>\<open>type\<close> string a constructor passes to
  \<^verbatim>\<open>super\<close> is \<open>node_type\<close>. The fields are \<^verbatim>\<open>start\<close>, \<^verbatim>\<open>end\<close> and the payload of the
  class, typed as the class declares them: the items of an array are nodes, the
  properties of an object are property nodes, a property has a string node as key and
  an optional value. \<^verbatim>\<open>name\<close> is only read by \<^verbatim>\<open>getNodeLocation\<close> and is left out.
  \<^verbatim>\<open>parent\<close> is the back-reference to the containing node; the only thing read through
  it is the key of an enclosing property, which the validator below receives as an
  argument.
\<close>

datatype string_node = StringNode (s_start: int) (s_end: int) (isKey: bool) (s_value: string)

datatype node =
    NullASTNode int int
  | BooleanASTNode int int bool
  | NumberASTNode int int bool jsnum
  | StringASTNode string_node
  | ArrayASTNode int int "node list"
  | PropertyASTNode property
  | ObjectASTNode int int "property list"
and property =
    Property (p_start: int) (p_end: int) (p_key: string_node) (p_value: "node option")

fun node_start :: "node \<Rightarrow> int" where
  "node_start (NullASTNode s e) = s"
| "node_start (BooleanASTNode s e b) = s"
| "node_start (NumberASTNode s e i v) = s"
| "node_start (StringASTNode k) = s_start k"
| "node_start (ArrayASTNode s e items) = s"
| "node_start (PropertyASTNode p) = p_start p"
| "node_start (ObjectASTNode s e properties) = s"

fun node_end :: "node \<Rightarrow> int" where
  "node_end (NullASTNode s e) = e"
| "node_end (BooleanASTNode s e b) = e"
| "node_end (NumberASTNode s e i v) = e"
| "node_end (StringASTNode k) = s_end k"
| "node_end (ArrayASTNode s e items) = e"
| "node_end (PropertyASTNode p) = p_end p"
| "node_end (ObjectASTNode s e properties) = e"

fun node_type :: "node \<Rightarrow> string" where
  "node_type (NullASTNode s e) = ''null''"
| "node_type (BooleanASTNode s e b) = ''boolean''"
| "node_type (NumberASTNode s e i v) = ''number''"
| "node_type (StringASTNode k) = ''string''"
| "node_type (ArrayASTNode s e items) = ''array''"
| "node_type (PropertyASTNode p) = ''property''"
| "node_type (ObjectASTNode s e properties) = ''object''"

fun getChildNodes :: "node \<Rightarrow> node list" where
  "getChildNodes (ArrayASTNode s e items) = items"
| "getChildNodes (PropertyASTNode p) =
     (case p_value p of
        Some v \<Rightarrow> [StringASTNode (p_key p), v]
      | None \<Rightarrow> [StringASTNode (p_key p)])"
| "getChildNodes (ObjectASTNode s e properties) = map PropertyASTNode properties"
| "getChildNodes n = []"

definition contains :: "node \<Rightarrow> int \<Rightarrow> bool \<Rightarrow> bool" where
  "contains this offset includeRightBound =
     (offset \<ge> node_start this \<and> offset < node_end this
      \<or> includeRightBound \<and> offset = node_end this)"

text \<open>A count of the nodes of a tree: the measure for recursion through \<open>getChildNodes\<close>.\<close>

fun node_count :: "node \<Rightarrow> nat" and property_count :: "property \<Rightarrow> nat" where
  "node_count (ArrayASTNode s e items) = Suc (sum_list (map node_count items))"
| "node_count (PropertyASTNode p) = property_count p"
| "node_count (ObjectASTNode s e properties) = Suc (sum_list (map property_count properties))"
| "node_count (NullASTNode s e) = 1"
| "node_count (BooleanASTNode s e b) = 1"
| "node_count (NumberASTNode s e i v) = 1"
| "node_count (StringASTNode k) = 1"
| "property_count (Property s e k v) =
     (case v of None \<Rightarrow> 2 | Some n \<Rightarrow> Suc (Suc (node_count n)))"

lemma node_count_pos: "0 < node_count n"
proof (cases n)
  case (PropertyASTNode p)
  then show ?thesis by (cases p) (simp split: option.splits)
qed simp_all

lemma node_count_children: "sum_list (map node_count (getChildNodes n)) < node_count n"
proof (cases n)
  case (PropertyASTNode p)
  then show ?thesis by (cases p) (simp split: option.splits)
next
  case (ObjectASTNode s e properties)
  then show ?thesis by (simp add: comp_def)
qed simp_all

lemma node_count_child: "c \<in> set (getChildNodes n) \<Longrightarrow> node_count c < node_count n"
proof -
  assume "c \<in> set (getChildNodes n)"
  then have "node_count c \<le> sum_list (map node_count (getChildNodes n))"
    by (simp add: member_le_sum_list)
  then show ?thesis using node_count_children [of n] by linarith
qed

text \<open>
  \<^verbatim>\<open>getNodeFromOffset\<close>: the closure \<^verbatim>\<open>findNode\<close> and its \<^verbatim>\<open>for\<close> loop over the children,
  which stops at the first child whose start lies beyond the offset. \<open>None\<close> is \<^verbatim>\<open>null\<close>.
\<close>

function findNode :: "int \<Rightarrow> node \<Rightarrow> node option"
  and findNode_loop :: "int \<Rightarrow> node list \<Rightarrow> node option" where
  "findNode offset node =
     (if offset \<ge> node_start node \<and> offset < node_end node
      then (case findNode_loop offset (getChildNodes node) of
              Some item \<Rightarrow> Some item
            | None \<Rightarrow> Some node)
      else None)"
| "findNode_loop offset [] = None"
| "findNode_loop offset (c # cs) =
     (if node_start c \<le> offset
      then (case findNode offset c of
              Some item \<Rightarrow> Some item
            | None \<Rightarrow> findNode_loop offset cs)
      else None)"
  by pat_completeness auto
termination
proof (relation "measure (\<lambda>x. case x of
          Inl (offset, n) \<Rightarrow> 2 * node_count n
        | Inr (offset, cs) \<Rightarrow> Suc (2 * sum_list (map node_count cs)))")
  show "wf (measure (\<lambda>x. case x of
          Inl (offset, n) \<Rightarrow> 2 * node_count n
        | Inr (offset, cs) \<Rightarrow> Suc (2 * sum_list (map node_count cs))))"
    by simp
next
  fix offset :: int and node :: node
  show "(Inr (offset, getChildNodes node), Inl (offset, node))
        \<in> measure (\<lambda>x. case x of
          Inl (offset, n) \<Rightarrow> 2 * node_count n
        | Inr (offset, cs) \<Rightarrow> Suc (2 * sum_list (map node_count cs)))"
    using node_count_children [of node] by simp
qed (simp_all add: node_count_pos)

definition getNodeFromOffset :: "node \<Rightarrow> int \<Rightarrow> node option" where
  "getNodeFromOffset this offset = findNode offset this"

text \<open>
  The invariant of the node model, as the specification states it: the range of every
  child lies within the range of its parent, and the children are sorted by start.
\<close>

function node_invariant :: "node \<Rightarrow> bool" where
  "node_invariant n =
     (list_all (\<lambda>c. node_start n \<le> node_start c \<and> node_end c \<le> node_end n
                     \<and> node_invariant c) (getChildNodes n)
      \<and> sorted (map node_start (getChildNodes n)))"
  by pat_completeness auto
termination
  by (relation "measure node_count") (simp_all add: node_count_child)

declare findNode.simps [simp del] node_invariant.simps [simp del]

subsection \<open>The builder operations\<close>

text \<open>
  An operand of a builder call is a reference that may be \<^verbatim>\<open>null\<close> or \<^verbatim>\<open>undefined\<close>.
  \<open>addItem\<close> and \<open>addProperty\<close> act on the \<^verbatim>\<open>items\<close> and \<^verbatim>\<open>properties\<close> arrays of the
  receiver. \<open>setKey\<close> and \<open>setValue\<close> act on the fields of a property node under
  construction, which hold whatever reference was assigned; the writes to the names of
  the key and the value are not part of the model, but the read of \<^verbatim>\<open>this.key.name\<close> in
  \<^verbatim>\<open>setValue\<close> is: it faults when there is no key.
\<close>

datatype 'a ref = Null | Undefined | Ref 'a

datatype error = TypeError string | SyntaxError string

record property_fields =
  pf_key :: "string_node ref"
  pf_value :: "node ref"
  pf_start :: int
  pf_end :: int

definition new_PropertyASTNode :: property_fields where
  "new_PropertyASTNode = \<lparr>pf_key = Undefined, pf_value = Undefined, pf_start = 0, pf_end = 0\<rparr>"

fun truthy_ref :: "'a ref \<Rightarrow> bool" where
  "truthy_ref (Ref x) = True"
| "truthy_ref r = False"

definition addItem :: "node list \<Rightarrow> node ref \<Rightarrow> node list \<times> bool" where
  "addItem items item = (case item of Ref n \<Rightarrow> (items @ [n], True) | _ \<Rightarrow> (items, False))"

definition addProperty :: "property list \<Rightarrow> property ref \<Rightarrow> property list \<times> bool" where
  "addProperty properties node =
     (case node of Ref p \<Rightarrow> (properties @ [p], True) | _ \<Rightarrow> (properties, False))"

definition setKey :: "property_fields \<Rightarrow> string_node ref \<Rightarrow> property_fields \<times> bool" where
  "setKey this k =
     (let this1 = this\<lparr>pf_key := k\<rparr>;
          this2 = (case pf_key this1 of
                     Ref kn \<Rightarrow> this1\<lparr>pf_start := s_start kn, pf_end := s_end kn\<rparr>
                   | _ \<Rightarrow> this1)
      in (this2, k \<noteq> Null))"

definition setValue :: "property_fields \<Rightarrow> node ref \<Rightarrow> error + property_fields \<times> bool" where
  "setValue this v =
     (let this1 = this\<lparr>pf_value := v\<rparr> in
      case pf_value this1 of
        Ref n \<Rightarrow>
          (case pf_key this1 of
             Ref kn \<Rightarrow> Inr (this1, v \<noteq> Null)
           | _ \<Rightarrow> Inl (TypeError ''this.key.name''))
      | _ \<Rightarrow> Inr (this1, v \<noteq> Null))"

section \<open>Schemas\<close>

text \<open>
  Modelled from the spec: the schema interface \<^verbatim>\<open>IJSONSchema\<close> of \<^verbatim>\<open>json/jsonSchema\<close>,
  which the validator imports and which is not among the sources. A schema is the list
  of its keyword entries, as a JSON object is the list of its members (a keyword is
  absent when no entry has it; the first entry of a keyword is the one that is read).
  Of the keywords of the specification those that \<open>validate\<close> reads are here, each with
  the type the specification gives it: a number where it says a limit, a list of
  schemas for \<^verbatim>\<open>allOf\<close>, and so on. Three keywords have two forms: \<^verbatim>\<open>items\<close> is one
  schema or a positional list, \<^verbatim>\<open>additionalProperties\<close> is a boolean or a schema, and
  the value of a dependency is a list of names or a schema. \<^verbatim>\<open>type\<close> is read with
  \<^verbatim>\<open>Array.isArray\<close>, truthiness and \<^verbatim>\<open>!==\<close>, which accept any value, so it is a plain
  value: a string, an array, or anything else.
\<close>

datatype 's items_value = ItemsSchema 's | ItemsList "'s list"

datatype 's additional = AdditionalBool bool | AdditionalSchema 's

datatype 's dependency = DependencyNames "string list" | DependencySchema 's

datatype schema = Schema (entries: "keyword list")
and keyword =
    is_Type: Type (get_Type: jval)
  | is_ErrorMessage: ErrorMessage (get_ErrorMessage: string)
  | is_AllOf: AllOf (get_AllOf: "schema list")
  | is_Not: Not (get_Not: schema)
  | is_AnyOf: AnyOf (get_AnyOf: "schema list")
  | is_OneOf: OneOf (get_OneOf: "schema list")
  | is_Enum: Enum (get_Enum: "jval list")
  | is_MultipleOf: MultipleOf (get_MultipleOf: jsnum)
  | is_Minimum: Minimum (get_Minimum: jsnum)
  | is_Maximum: Maximum (get_Maximum: jsnum)
  | is_ExclusiveMinimum: ExclusiveMinimum (get_ExclusiveMinimum: bool)
  | is_ExclusiveMaximum: ExclusiveMaximum (get_ExclusiveMaximum: bool)
  | is_MinLength: MinLength (get_MinLength: jsnum)
  | is_MaxLength: MaxLength (get_MaxLength: jsnum)
  | is_Pattern: Pattern (get_Pattern: string)
  | is_Items: Items (get_Items: "schema items_value")
  | is_AdditionalItems: AdditionalItems (get_AdditionalItems: bool)
  | is_MinItems: MinItems (get_MinItems: jsnum)
  | is_MaxItems: MaxItems (get_MaxItems: jsnum)
  | is_UniqueItems: UniqueItems (get_UniqueItems: bool)
  | is_Required: Required (get_Required: "string list")
  | is_Properties: Properties (get_Properties: "(string \<times> schema) list")
  | is_PatternProperties: PatternProperties (get_PatternProperties: "(string \<times> schema) list")
  | is_AdditionalProperties: AdditionalProperties (get_AdditionalProperties: "schema additional")
  | is_MaxProperties: MaxProperties (get_MaxProperties: jsnum)
  | is_MinProperties: MinProperties (get_MinProperties: jsnum)
  | is_Dependencies: Dependencies (get_Dependencies: "(string \<times> schema dependency) list")

definition kw :: "(keyword \<Rightarrow> bool) \<Rightarrow> (keyword \<Rightarrow> 'a) \<Rightarrow> schema \<Rightarrow> 'a option" where
  "kw d g schema = map_option g (List.find d (entries schema))"

fun opt_list :: "'a list option \<Rightarrow> 'a list" where
  "opt_list None = []"
| "opt_list (Some xs) = xs"


subsection \<open>JavaScript values\<close>

fun num_truthy :: "jsnum \<Rightarrow> bool" where
  "num_truthy NaN = False"
| "num_truthy (Num r) = (r \<noteq> 0)"

fun truthy :: "jval \<Rightarrow> bool" where
  "truthy JUndefined = False"
| "truthy JNull = False"
| "truthy (JBool b) = b"
| "truthy (JNum n) = num_truthy n"
| "truthy (JStr s) = (s \<noteq> [])"
| "truthy (JArr xs) = True"
| "truthy (JObj kvs) = True"

fun js_less :: "jsnum \<Rightarrow> jsnum \<Rightarrow> bool" where
  "js_less (Num a) (Num b) = (a < b)"
| "js_less a b = False"

fun js_less_eq :: "jsnum \<Rightarrow> jsnum \<Rightarrow> bool" where
  "js_less_eq (Num a) (Num b) = (a \<le> b)"
| "js_less_eq a b = False"

text \<open>The remainder operator \<^verbatim>\<open>%\<close>: the quotient is truncated towards zero.\<close>

definition truncate :: "rat \<Rightarrow> int" where
  "truncate q = (if q < 0 then \<lceil>q\<rceil> else \<lfloor>q\<rfloor>)"

fun js_rem :: "jsnum \<Rightarrow> jsnum \<Rightarrow> jsnum" where
  "js_rem (Num a) (Num b) = (if b = 0 then NaN else Num (a - b * of_int (truncate (a / b))))"
| "js_rem a b = NaN"

fun isArray :: "jval \<Rightarrow> jval list option" where
  "isArray (JArr xs) = Some xs"
| "isArray v = None"

text \<open>
  Strict equality \<^verbatim>\<open>===\<close> between two values that are not the same object: arrays and
  objects are equal only to themselves, \<open>NaN\<close> to nothing.
\<close>

fun strict_equals :: "jval \<Rightarrow> jval \<Rightarrow> bool" where
  "strict_equals JUndefined JUndefined = True"
| "strict_equals JNull JNull = True"
| "strict_equals (JBool a) (JBool b) = (a = b)"
| "strict_equals (JNum (Num a)) (JNum (Num b)) = (a = b)"
| "strict_equals (JStr a) (JStr b) = (a = b)"
| "strict_equals a b = False"

text \<open>
  \<^verbatim>\<open>getValue()\<close>. An object value is built by assignment \<^verbatim>\<open>value[key] = v\<close>: a key
  that is already there keeps its place and takes the new value.
\<close>

fun assign :: "string \<Rightarrow> jval \<Rightarrow> (string \<times> jval) list \<Rightarrow> (string \<times> jval) list" where
  "assign k v [] = [(k, v)]"
| "assign k v ((k', v') # kvs) = (if k = k' then (k, v) # kvs else (k', v') # assign k v kvs)"

fun getValue :: "node \<Rightarrow> jval" and property_entry :: "property \<Rightarrow> (string \<times> jval) option" where
  "getValue (NullASTNode s e) = JNull"
| "getValue (BooleanASTNode s e b) = JBool b"
| "getValue (NumberASTNode s e i v) = JNum v"
| "getValue (StringASTNode k) = JStr (s_value k)"
| "getValue (ArrayASTNode s e items) = JArr (map getValue items)"
| "getValue (PropertyASTNode p) = JUndefined"
| "getValue (ObjectASTNode s e properties) =
     JObj (fold (\<lambda>entry value. case entry of None \<Rightarrow> value | Some (k, v) \<Rightarrow> assign k v value)
             (map property_entry properties) [])"
| "property_entry (Property s e k v) =
     (case v of
        None \<Rightarrow> None
      | Some n \<Rightarrow> (let x = getValue n in if truthy x then Some (s_value k, x) else None))"

subsection \<open>Diagnostics\<close>

definition push_warning :: "ValidationResult \<Rightarrow> int \<Rightarrow> int \<Rightarrow> message \<Rightarrow> ValidationResult" where
  "push_warning validationResult s e m =
     validationResult\<lparr>warnings := warnings validationResult
        @ [\<lparr>location = \<lparr>range_start = s, range_end = e\<rparr>, message = m\<rparr>]\<rparr>"

definition warn :: "node \<Rightarrow> message \<Rightarrow> ValidationResult \<Rightarrow> ValidationResult" where
  "warn this m validationResult = push_warning validationResult (node_start this) (node_end this) m"

definition errorMessage_or :: "schema \<Rightarrow> message \<Rightarrow> message" where
  "errorMessage_or schema m =
     (case kw is_ErrorMessage get_ErrorMessage schema of
        Some t \<Rightarrow> if t \<noteq> [] then Custom t else m
      | None \<Rightarrow> m)"

text \<open>An entry of the match trace; \<open>None\<close> is an \<^verbatim>\<open>inverted\<close> that was never set.\<close>

record IApplicableSchema =
  ms_node :: node
  ms_inverted :: "bool option"
  ms_schema :: schema

type_synonym trace = "IApplicableSchema list option"

definition invert :: "IApplicableSchema \<Rightarrow> IApplicableSchema" where
  "invert ms = ms\<lparr>ms_inverted := (case ms_inverted ms of None \<Rightarrow> Some True | Some b \<Rightarrow> Some (\<not> b))\<rparr>"

definition push_all :: "trace \<Rightarrow> IApplicableSchema list \<Rightarrow> trace" where
  "push_all matchingSchemas new = (case matchingSchemas of None \<Rightarrow> None | Some l \<Rightarrow> Some (l @ new))"

subsection \<open>The checks of the base class\<close>

text \<open>
  The state a call works on: the current value of \<^verbatim>\<open>this.type\<close> (the number node
  overwrites it during a call), the validation result and the match trace (\<open>None\<close> is
  \<^verbatim>\<open>null\<close>: no trace is collected).
\<close>

type_synonym vstate = "string \<times> ValidationResult \<times> trace"

definition type_check :: "node \<Rightarrow> string \<Rightarrow> schema \<Rightarrow> ValidationResult \<Rightarrow> ValidationResult" where
  "type_check this ty schema validationResult =
     (case kw is_Type get_Type schema of
        None \<Rightarrow> validationResult
      | Some t \<Rightarrow>
          (case isArray t of
             Some ts \<Rightarrow>
               if JStr ty \<notin> set ts
               then warn this (errorMessage_or schema
                      (Localize ''typeArrayMismatchWarning'' [ArgVals ts])) validationResult
               else validationResult
           | None \<Rightarrow>
               if truthy t
               then (if JStr ty \<noteq> t
                     then warn this (errorMessage_or schema
                            (Localize ''typeMismatchWarning'' [ArgVal t])) validationResult
                     else validationResult)
               else validationResult))"

definition apply_not :: "node \<Rightarrow> ValidationResult \<times> trace \<Rightarrow> error + vstate \<Rightarrow> error + vstate" where
  "apply_not this outer sub =
     (case sub of
        Inl e \<Rightarrow> Inl e
      | Inr (ty, subValidationResult, subMatchingSchemas) \<Rightarrow>
          Inr (ty,
               (if \<not> hasErrors subValidationResult
                then warn this (Localize ''notSchemaWarning'' []) (fst outer)
                else fst outer),
               push_all (snd outer) (map invert (opt_list subMatchingSchemas))))"

text \<open>
  \<^verbatim>\<open>testAlternatives\<close>: the state of its loop is the list \<^verbatim>\<open>matches\<close> and \<^verbatim>\<open>bestMatch\<close>
  (\<open>None\<close> is \<^verbatim>\<open>null\<close>).
\<close>

type_synonym best = "schema \<times> ValidationResult \<times> IApplicableSchema list"

definition alternative_step ::
  "bool \<Rightarrow> schema \<Rightarrow> ValidationResult \<Rightarrow> IApplicableSchema list
   \<Rightarrow> schema list \<times> best option \<Rightarrow> schema list \<times> best option" where
  "alternative_step maxOneMatch subSchema subValidationResult subMatchingSchemas acc =
     (let matches = (if \<not> hasErrors subValidationResult then fst acc @ [subSchema] else fst acc)
      in case snd acc of
           None \<Rightarrow> (matches, Some (subSchema, subValidationResult, subMatchingSchemas))
         | Some (bs, bvr, bms) \<Rightarrow>
             if \<not> maxOneMatch \<and> \<not> hasErrors subValidationResult \<and> \<not> hasErrors bvr
             then (matches,
                   Some (bs,
                         bvr\<lparr>propertiesMatches :=
                                propertiesMatches bvr + propertiesMatches subValidationResult,
                              propertiesValueMatches :=
                                propertiesValueMatches bvr + propertiesValueMatches subValidationResult\<rparr>,
                         bms @ subMatchingSchemas))
             else if compare subValidationResult bvr > 0
               then (matches, Some (subSchema, subValidationResult, subMatchingSchemas))
             else if compare subValidationResult bvr = 0
               then (matches, Some (bs, bvr, bms @ subMatchingSchemas))
             else (matches, Some (bs, bvr, bms)))"

definition alternative_collect ::
  "bool \<Rightarrow> schema \<Rightarrow> schema list \<times> best option \<Rightarrow> error + vstate
   \<Rightarrow> error + string \<times> schema list \<times> best option" where
  "alternative_collect maxOneMatch subSchema acc sub =
     (case sub of
        Inl e \<Rightarrow> Inl e
      | Inr (ty, subValidationResult, subMatchingSchemas) \<Rightarrow>
          Inr (ty, alternative_step maxOneMatch subSchema subValidationResult
                     (opt_list subMatchingSchemas) acc))"

definition alternatives_finish ::
  "node \<Rightarrow> bool \<Rightarrow> ValidationResult \<times> trace \<Rightarrow> schema list \<times> best option
   \<Rightarrow> ValidationResult \<times> trace" where
  "alternatives_finish this maxOneMatch outer acc =
     (let vr1 = (if length (fst acc) > 1 \<and> maxOneMatch
                 then push_warning (fst outer) (node_start this) (node_start this + 1)
                        (Localize ''oneOfWarning'' [])
                 else fst outer)
      in case snd acc of
           None \<Rightarrow> (vr1, snd outer)
         | Some (bs, bvr, bms) \<Rightarrow>
             (let vr2 = merge vr1 bvr in
              (vr2\<lparr>propertiesMatches := propertiesMatches vr2 + propertiesMatches bvr,
                    propertiesValueMatches :=
                      propertiesValueMatches vr2 + propertiesValueMatches bvr\<rparr>,
               push_all (snd outer) bms)))"

definition alternatives_result ::
  "node \<Rightarrow> bool \<Rightarrow> ValidationResult \<times> trace \<Rightarrow> error + string \<times> schema list \<times> best option
   \<Rightarrow> error + vstate" where
  "alternatives_result this maxOneMatch outer r =
     (case r of
        Inl e \<Rightarrow> Inl e
      | Inr (ty, acc) \<Rightarrow> Inr (ty, alternatives_finish this maxOneMatch outer acc))"

definition enum_check :: "node \<Rightarrow> schema \<Rightarrow> ValidationResult \<Rightarrow> ValidationResult" where
  "enum_check this schema validationResult =
     (case kw is_Enum get_Enum schema of
        None \<Rightarrow> validationResult
      | Some vs \<Rightarrow>
          if \<not> list_ex (\<lambda>m. strict_equals m (getValue this)) vs
          then warn this (Localize ''enumWarning'' [ArgVals vs]) validationResult
          else validationResult\<lparr>enumValueMatch := True\<rparr>)"

definition record_match :: "node \<Rightarrow> schema \<Rightarrow> trace \<Rightarrow> trace" where
  "record_match this schema matchingSchemas =
     push_all matchingSchemas [\<lparr>ms_node = this, ms_inverted = None, ms_schema = schema\<rparr>]"

subsection \<open>The checks of the scalar nodes\<close>

definition typeIsInteger :: "schema \<Rightarrow> bool" where
  "typeIsInteger schema =
     (case kw is_Type get_Type schema of
        None \<Rightarrow> False
      | Some t \<Rightarrow>
          t = JStr ''integer''
          \<or> (case isArray t of Some ts \<Rightarrow> JStr ''integer'' \<in> set ts | None \<Rightarrow> False))"

text \<open>
  The number node works around the type check of the base class: before it calls
  \<^verbatim>\<open>super.validate\<close> it sets \<^verbatim>\<open>this.type\<close> to \<^verbatim>\<open>'integer'\<close> when the schema asks for an
  integer and the node is one (\<open>enter_type\<close>); after the call it sets \<^verbatim>\<open>this.type\<close> to
  \<^verbatim>\<open>'number'\<close> (\<open>leave_type\<close>). No other node writes its type.
\<close>

fun enter_type :: "node \<Rightarrow> schema \<Rightarrow> string \<Rightarrow> string" where
  "enter_type (NumberASTNode s e isInteger v) schema ty =
     (if typeIsInteger schema \<and> isInteger then ''integer'' else ty)"
| "enter_type this schema ty = ty"

fun leave_type :: "node \<Rightarrow> string \<Rightarrow> string" where
  "leave_type (NumberASTNode s e isInteger v) ty = ''number''"
| "leave_type this ty = ty"

definition number_checks :: "node \<Rightarrow> jsnum \<Rightarrow> schema \<Rightarrow> ValidationResult \<Rightarrow> ValidationResult" where
  "number_checks this val schema validationResult =
     (let vr1 =
        (case kw is_MultipleOf get_MultipleOf schema of
           None \<Rightarrow> validationResult
         | Some m \<Rightarrow>
             if (case js_rem val m of NaN \<Rightarrow> True | Num r \<Rightarrow> r \<noteq> 0)
             then warn this (Localize ''multipleOfWarning'' [ArgNum m]) validationResult
             else validationResult);
          exclusiveMinimum = (kw is_ExclusiveMinimum get_ExclusiveMinimum schema = Some True);
          vr2 =
        (case kw is_Minimum get_Minimum schema of
           None \<Rightarrow> vr1
         | Some m \<Rightarrow>
             (let a = (if exclusiveMinimum \<and> js_less_eq val m
                       then warn this (Localize ''exclusiveMinimumWarning'' [ArgNum m]) vr1
                       else vr1)
              in if \<not> exclusiveMinimum \<and> js_less val m
                 then warn this (Localize ''minimumWarning'' [ArgNum m]) a
                 else a));
          exclusiveMaximum = (kw is_ExclusiveMaximum get_ExclusiveMaximum schema = Some True)
      in case kw is_Maximum get_Maximum schema of
           None \<Rightarrow> vr2
         | Some m \<Rightarrow>
             (let a = (if exclusiveMaximum \<and> js_less_eq m val
                       then warn this (Localize ''exclusiveMaximumWarning'' [ArgNum m]) vr2
                       else vr2)
              in if \<not> exclusiveMaximum \<and> js_less m val
                 then warn this (Localize ''maximumWarning'' [ArgNum m]) a
                 else a))"

text \<open>
  \<open>re\<close> stands for the regular expressions of the JavaScript runtime: \<open>re p\<close> is
  \<open>None\<close> when \<^verbatim>\<open>new RegExp(p)\<close> throws a SyntaxError, and otherwise the \<^verbatim>\<open>test\<close>
  function of the compiled expression.
\<close>

type_synonym regexps = "string \<Rightarrow> (string \<Rightarrow> bool) option"

definition string_limits :: "node \<Rightarrow> string \<Rightarrow> schema \<Rightarrow> ValidationResult \<Rightarrow> ValidationResult" where
  "string_limits this val schema validationResult =
     (let vr1 =
        (case kw is_MinLength get_MinLength schema of
           None \<Rightarrow> validationResult
         | Some m \<Rightarrow>
             if num_truthy m \<and> js_less (Num (of_nat (length val))) m
             then warn this (Localize ''minLengthWarning'' [ArgNum m]) validationResult
             else validationResult)
      in case kw is_MaxLength get_MaxLength schema of
           None \<Rightarrow> vr1
         | Some m \<Rightarrow>
             if num_truthy m \<and> js_less m (Num (of_nat (length val)))
             then warn this (Localize ''maxLengthWarning'' [ArgNum m]) vr1
             else vr1)"

definition pattern_check ::
  "regexps \<Rightarrow> node \<Rightarrow> string \<Rightarrow> schema \<Rightarrow> ValidationResult \<Rightarrow> error + ValidationResult" where
  "pattern_check re this val schema validationResult =
     (case kw is_Pattern get_Pattern schema of
        None \<Rightarrow> Inr validationResult
      | Some p \<Rightarrow>
          if p \<noteq> []
          then (case re p of
                  None \<Rightarrow> Inl (SyntaxError p)
                | Some test \<Rightarrow>
                    Inr (if \<not> test val
                         then warn this (errorMessage_or schema
                                (Localize ''patternWarning'' [ArgStr p])) validationResult
                         else validationResult))
          else Inr validationResult)"

fun scalar_checks ::
  "regexps \<Rightarrow> node \<Rightarrow> schema \<Rightarrow> ValidationResult \<Rightarrow> error + ValidationResult" where
  "scalar_checks re (NumberASTNode s e i v) schema validationResult =
     Inr (number_checks (NumberASTNode s e i v) v schema validationResult)"
| "scalar_checks re (StringASTNode k) schema validationResult =
     pattern_check re (StringASTNode k) (s_value k) schema
       (string_limits (StringASTNode k) (s_value k) schema validationResult)"
| "scalar_checks re this schema validationResult = Inr validationResult"

subsection \<open>The checks of the array node\<close>

definition additional_items_check ::
  "node \<Rightarrow> node list \<Rightarrow> schema list \<Rightarrow> schema \<Rightarrow> ValidationResult \<Rightarrow> ValidationResult" where
  "additional_items_check this items subSchemas schema validationResult =
     (if kw is_AdditionalItems get_AdditionalItems schema = Some False
         \<and> length items > length subSchemas
      then warn this (Localize ''additionalItemsWarning'' [ArgCount (length subSchemas)])
             validationResult
      else if length items \<ge> length subSchemas
      then validationResult\<lparr>propertiesValueMatches :=
             propertiesValueMatches validationResult + (length items - length subSchemas)\<rparr>
      else validationResult)"

text \<open>
  \<^verbatim>\<open>values.some((value, index) => index !== values.lastIndexOf(value))\<close>: a value is
  found at its own index unless it is \<open>NaN\<close>; at another index it is found by strict
  equality with a different value.
\<close>

definition same_value :: "jval list \<Rightarrow> nat \<Rightarrow> nat \<Rightarrow> bool" where
  "same_value vs i j = (if i = j then vs ! i \<noteq> JNum NaN else strict_equals (vs ! j) (vs ! i))"

definition lastIndexOf_at :: "jval list \<Rightarrow> nat \<Rightarrow> int" where
  "lastIndexOf_at vs i =
     (case filter (same_value vs i) (rev [0..<length vs]) of
        [] \<Rightarrow> - 1
      | j # js \<Rightarrow> int j)"

definition duplicates :: "jval list \<Rightarrow> bool" where
  "duplicates vs = list_ex (\<lambda>i. int i \<noteq> lastIndexOf_at vs i) [0..<length vs]"

definition array_limits :: "node \<Rightarrow> node list \<Rightarrow> schema \<Rightarrow> ValidationResult \<Rightarrow> ValidationResult" where
  "array_limits this items schema validationResult =
     (let vr1 =
        (case kw is_MinItems get_MinItems schema of
           None \<Rightarrow> validationResult
         | Some m \<Rightarrow>
             if num_truthy m \<and> js_less (Num (of_nat (length items))) m
             then warn this (Localize ''minItemsWarning'' [ArgNum m]) validationResult
             else validationResult);
          vr2 =
        (case kw is_MaxItems get_MaxItems schema of
           None \<Rightarrow> vr1
         | Some m \<Rightarrow>
             if num_truthy m \<and> js_less m (Num (of_nat (length items)))
             then warn this (Localize ''maxItemsWarning''
                    [case kw is_MinItems get_MinItems schema of
                       None \<Rightarrow> ArgVal JUndefined | Some n \<Rightarrow> ArgNum n]) vr1
             else vr1)
      in if kw is_UniqueItems get_UniqueItems schema = Some True
            \<and> duplicates (map getValue items)
         then warn this (Localize ''uniqueItemsWarning'' []) vr2
         else vr2)"

subsection \<open>The checks of the object node\<close>

text \<open>
  \<^verbatim>\<open>seenKeys\<close> is a plain object that receives \<^verbatim>\<open>seenKeys[key] = node.value\<close> for every
  property, so the last property with a key decides. A lookup yields the value node
  together with the key of the property that holds it (what \<^verbatim>\<open>child.parent.key\<close> is),
  or \<^verbatim>\<open>undefined\<close> (no such key, or a property without value), or, for a name that
  no property has but \<^verbatim>\<open>Object.prototype\<close> does, the inherited member, which is truthy
  and is not a node. A property named \<^verbatim>\<open>__proto__\<close> in the document is outside the
  model.
\<close>

datatype seen = SeenUndefined | SeenInherited | SeenNode node string_node

definition object_prototype_names :: "string list" where
  "object_prototype_names =
     [''constructor'', ''hasOwnProperty'', ''isPrototypeOf'', ''propertyIsEnumerable'',
      ''toLocaleString'', ''toString'', ''valueOf'', ''__defineGetter__'',
      ''__defineSetter__'', ''__lookupGetter__'', ''__lookupSetter__'', ''__proto__'']"

definition seenKeys :: "property list \<Rightarrow> string \<Rightarrow> seen" where
  "seenKeys properties name =
     (case List.find (\<lambda>p. s_value (p_key p) = name) (rev properties) of
        Some p \<Rightarrow> (case p_value p of Some v \<Rightarrow> SeenNode v (p_key p) | None \<Rightarrow> SeenUndefined)
      | None \<Rightarrow> if name \<in> set object_prototype_names then SeenInherited else SeenUndefined)"

fun seen_truthy :: "seen \<Rightarrow> bool" where
  "seen_truthy SeenUndefined = False"
| "seen_truthy SeenInherited = True"
| "seen_truthy (SeenNode n k) = True"

definition required_check ::
  "node \<Rightarrow> string_node option \<Rightarrow> property list \<Rightarrow> schema \<Rightarrow> ValidationResult
   \<Rightarrow> ValidationResult" where
  "required_check this pkey properties schema validationResult =
     fold (\<lambda>propertyName vr.
             if \<not> seen_truthy (seenKeys properties propertyName)
             then (case pkey of
                     Some k \<Rightarrow> push_warning vr (s_start k) (s_end k)
                       (Localize ''MissingRequiredPropWarning'' [ArgStr propertyName])
                   | None \<Rightarrow> push_warning vr (node_start this) (node_start this + 1)
                       (Localize ''MissingRequiredPropWarning'' [ArgStr propertyName]))
             else vr)
          (opt_list (kw is_Required get_Required schema)) validationResult"

definition disallowed_check ::
  "property list \<Rightarrow> string list \<Rightarrow> ValidationResult \<Rightarrow> ValidationResult" where
  "disallowed_check properties unprocessedProperties validationResult =
     fold (\<lambda>propertyName vr.
             case seenKeys properties propertyName of
               SeenNode child k \<Rightarrow> push_warning vr (s_start k) (s_end k)
                 (Localize ''DisallowedExtraPropWarning'' [ArgStr propertyName])
             | _ \<Rightarrow> vr)
          unprocessedProperties validationResult"

definition object_limits ::
  "node \<Rightarrow> property list \<Rightarrow> schema \<Rightarrow> ValidationResult \<Rightarrow> ValidationResult" where
  "object_limits this properties schema validationResult =
     (let vr1 =
        (case kw is_MaxProperties get_MaxProperties schema of
           None \<Rightarrow> validationResult
         | Some m \<Rightarrow>
             if num_truthy m \<and> js_less m (Num (of_nat (length properties)))
             then warn this (Localize ''MaxPropWarning'' [ArgNum m]) validationResult
             else validationResult)
      in case kw is_MinProperties get_MinProperties schema of
           None \<Rightarrow> vr1
         | Some m \<Rightarrow>
             if num_truthy m \<and> js_less (Num (of_nat (length properties))) m
             then warn this (Localize ''MinPropWarning'' [ArgNum m]) vr1
             else vr1)"

definition dependency_names_check ::
  "node \<Rightarrow> property list \<Rightarrow> string \<Rightarrow> string list \<Rightarrow> ValidationResult \<Rightarrow> ValidationResult" where
  "dependency_names_check this properties k valueAsArray validationResult =
     fold (\<lambda>requiredProp vr.
             if \<not> seen_truthy (seenKeys properties requiredProp)
             then warn this (Localize ''RequiredDependentPropWarning''
                    [ArgStr requiredProp, ArgStr k]) vr
             else vr\<lparr>propertiesValueMatches := propertiesValueMatches vr + 1\<rparr>)
          valueAsArray validationResult"

subsection \<open>Sequencing with faults\<close>

definition bindE :: "error + 'a \<Rightarrow> ('a \<Rightarrow> error + 'b) \<Rightarrow> error + 'b" where
  "bindE m f = (case m of Inl e \<Rightarrow> Inl e | Inr x \<Rightarrow> f x)"

text \<open>\<^verbatim>\<open>forEach\<close> with a body that may throw: the first fault ends the loop.\<close>

fun foldE :: "('a \<Rightarrow> 's \<Rightarrow> error + 's) \<Rightarrow> 'a list \<Rightarrow> 's \<Rightarrow> error + 's" where
  "foldE f [] s = Inr s"
| "foldE f (x # xs) s = (case f x s of Inl e \<Rightarrow> Inl e | Inr s' \<Rightarrow> foldE f xs s')"

lemma foldE_cong [fundef_cong]:
  "xs = ys \<Longrightarrow> s = t \<Longrightarrow> (\<And>x s. x \<in> set ys \<Longrightarrow> f x s = g x s) \<Longrightarrow> foldE f xs s = foldE g ys t"
proof (induction ys arbitrary: xs s t)
  case Nil
  then show ?case by simp
next
  case (Cons y ys)
  then show ?case by (auto split: sum.splits)
qed

definition merge_child ::
  "ValidationResult \<Rightarrow> error + vstate \<Rightarrow> error + ValidationResult \<times> trace" where
  "merge_child validationResult sub =
     (case sub of
        Inl e \<Rightarrow> Inl e
      | Inr (ty, childResult, matchingSchemas) \<Rightarrow>
          Inr (mergePropertyMatch validationResult childResult, matchingSchemas))"

definition merge_self :: "ValidationResult \<Rightarrow> error + vstate \<Rightarrow> error + vstate" where
  "merge_self validationResult sub =
     (case sub of
        Inl e \<Rightarrow> Inl e
      | Inr (ty, childResult, matchingSchemas) \<Rightarrow>
          Inr (ty, mergePropertyMatch validationResult childResult, matchingSchemas))"

definition with_unprocessed ::
  "string list \<Rightarrow> error + ValidationResult \<times> trace
   \<Rightarrow> error + string list \<times> ValidationResult \<times> trace" where
  "with_unprocessed unprocessedProperties r =
     (case r of Inl e \<Rightarrow> Inl e | Inr (vr, ms) \<Rightarrow> Inr (unprocessedProperties, vr, ms))"

definition keep_type :: "string \<Rightarrow> error + vstate \<Rightarrow> error + vstate" where
  "keep_type ty r = (case r of Inl e \<Rightarrow> Inl e | Inr (ty', vr, ms) \<Rightarrow> Inr (ty, vr, ms))"

definition with_type :: "string \<Rightarrow> error + ValidationResult \<times> trace \<Rightarrow> error + vstate" where
  "with_type ty r = (case r of Inl e \<Rightarrow> Inl e | Inr (vr, ms) \<Rightarrow> Inr (ty, vr, ms))"

fun property_of :: "node \<Rightarrow> property option" where
  "property_of (PropertyASTNode p) = Some p"
| "property_of n = None"

lemma kw_in: "kw d g (Schema ks) = Some v \<Longrightarrow> \<exists>k \<in> set ks. d k \<and> v = g k"
  by (auto simp: kw_def find_Some_iff)

lemma keyword_size: "k \<in> set ks \<Longrightarrow> size k < size (Schema ks)"
  by (simp add: less_Suc_eq_le size_list_estimation')


lemma list_keyword_size:
  assumes "kw d g (Schema ks) = Some xs" and "x \<in> set xs"
    and "\<And>k. d k \<Longrightarrow> x \<in> set (g k) \<Longrightarrow> size x < size k"
  shows "size x < size (Schema ks)"
proof -
  from kw_in [OF assms(1)] obtain k where k: "k \<in> set ks" "d k" "xs = g k" by blast
  with assms have "size x < size k" by blast
  with keyword_size [OF k(1)] show ?thesis by simp
qed

lemma allOf_size:
  "x \<in> set (opt_list (kw is_AllOf get_AllOf (Schema ks))) \<Longrightarrow> size x < size (Schema ks)"
proof (cases "kw is_AllOf get_AllOf (Schema ks)")
  case None
  assume "x \<in> set (opt_list (kw is_AllOf get_AllOf (Schema ks)))"
  with None show ?thesis by simp
next
  case (Some xs)
  assume "x \<in> set (opt_list (kw is_AllOf get_AllOf (Schema ks)))"
  with Some have x: "x \<in> set xs" by simp
  show ?thesis
  proof (rule list_keyword_size [OF Some x])
    fix k assume "is_AllOf k" "x \<in> set (get_AllOf k)"
    then show "size x < size k"
      by (cases k) (simp_all add: less_Suc_eq_le size_list_estimation')
  qed
qed




subsection \<open>validate\<close>

text \<open>
  \<^verbatim>\<open>validate(schema, validationResult, matchingSchemas, offset)\<close> of every node class
  in one function: the offset guard; the property node, which hands everything to its
  value; and for the other classes the body of \<^verbatim>\<open>ASTNode.validate\<close> (type, allOf, not,
  anyOf, oneOf, enum, trace) between the two writes of the number node to its type,
  followed by the checks of the class. The virtual calls \<^verbatim>\<open>this.validate(...)\<close> of the
  base class are calls of the whole function on the same node.

  The arguments: the regular expressions of the runtime; the node; the key of the
  parent of the node when the parent is a property (\<^verbatim>\<open>this.parent.key\<close>, read for the
  place of a missing-property warning); the schema; the offset, \<open>- 1\<close> when none is
  given; and the state. The result is a fault or the new state. The children of a node
  are validated from the type of their class, and the type they end with is dropped: a
  call that is entered with the type of the class and returns leaves that type behind
  (lemma \<open>validate_type_restored\<close> below). For \<^verbatim>\<open>additionalProperties: true\<close> the source validates against the
  value \<^verbatim>\<open>true\<close>, on which every keyword is undefined; the model validates against the
  empty schema, so a trace entry then holds the empty schema where the source holds
  \<^verbatim>\<open>true\<close>. The length of a string is the length of the list of its characters.
\<close>

function validate ::
  "regexps \<Rightarrow> node \<Rightarrow> string_node option \<Rightarrow> schema \<Rightarrow> int \<Rightarrow> vstate \<Rightarrow> error + vstate" where
  "validate re this pkey (Schema ks) offset (ty, validationResult, matchingSchemas) =
   (if offset \<noteq> - 1 \<and> \<not> contains this offset False
    then Inr (ty, validationResult, matchingSchemas)
    else case property_of this of
      Some p \<Rightarrow>
        (case p_value p of
           None \<Rightarrow> Inr (ty, validationResult, matchingSchemas)
         | Some v \<Rightarrow>
             keep_type ty (validate re v (Some (p_key p)) (Schema ks) offset
               (node_type v, validationResult, matchingSchemas)))
    | None \<Rightarrow>
      bindE (foldE (\<lambda>subSchema st. validate re this pkey subSchema offset st)
               (opt_list (kw is_AllOf get_AllOf (Schema ks)))
               (enter_type this (Schema ks) ty,
                type_check this (enter_type this (Schema ks) ty) (Schema ks) validationResult,
                matchingSchemas))
      (\<lambda>(ty, vr, ms).
      bindE (case kw is_Not get_Not (Schema ks) of
               None \<Rightarrow> Inr (ty, vr, ms)
             | Some notSchema \<Rightarrow>
                 apply_not this (vr, ms)
                   (validate re this pkey notSchema offset (ty, new_ValidationResult, Some [])))
      (\<lambda>(ty, vr, ms).
      bindE (case kw is_AnyOf get_AnyOf (Schema ks) of
               None \<Rightarrow> Inr (ty, vr, ms)
             | Some alternatives \<Rightarrow>
                 alternatives_result this False (vr, ms)
                   (foldE (\<lambda>subSchema (ty, acc).
                      alternative_collect False subSchema acc
                        (validate re this pkey subSchema (- 1) (ty, new_ValidationResult, Some [])))
                    alternatives (ty, [], None)))
      (\<lambda>(ty, vr, ms).
      bindE (case kw is_OneOf get_OneOf (Schema ks) of
               None \<Rightarrow> Inr (ty, vr, ms)
             | Some alternatives \<Rightarrow>
                 alternatives_result this True (vr, ms)
                   (foldE (\<lambda>subSchema (ty, acc).
                      alternative_collect True subSchema acc
                        (validate re this pkey subSchema (- 1) (ty, new_ValidationResult, Some [])))
                    alternatives (ty, [], None)))
      (\<lambda>(ty1, vr1, ms1).
        (let vr = enum_check this (Schema ks) vr1;
             ms = record_match this (Schema ks) ms1;
             ty = leave_type this ty1
         in case this of
           ArrayASTNode s e items \<Rightarrow>
             bindE (case kw is_Items get_Items (Schema ks) of
                      None \<Rightarrow> Inr (vr, ms)
                    | Some (ItemsList subSchemas) \<Rightarrow>
                        bindE (foldE (\<lambda>(subSchema, index) (vr, ms).
                                 if index < length items
                                 then merge_child vr
                                        (validate re (items ! index) None subSchema offset
                                           (node_type (items ! index), new_ValidationResult, ms))
                                 else if length items \<ge> length subSchemas
                                 then Inr (vr\<lparr>propertiesValueMatches :=
                                             propertiesValueMatches vr + 1\<rparr>, ms)
                                 else Inr (vr, ms))
                               (zip subSchemas [0..<length subSchemas]) (vr, ms))
                          (\<lambda>(vr, ms).
                             Inr (additional_items_check this items subSchemas (Schema ks) vr, ms))
                    | Some (ItemsSchema subSchema) \<Rightarrow>
                        foldE (\<lambda>item (vr, ms).
                                 merge_child vr
                                   (validate re item None subSchema offset
                                      (node_type item, new_ValidationResult, ms)))
                              items (vr, ms))
               (\<lambda>(vr, ms). Inr (ty, array_limits this items (Schema ks) vr, ms))
         | ObjectASTNode s e properties \<Rightarrow>
             bindE (foldE (\<lambda>(propertyName, prop) (unprocessedProperties, vr, ms).
                      case seenKeys properties propertyName of
                        SeenNode child k \<Rightarrow>
                          with_unprocessed (removeAll propertyName unprocessedProperties)
                            (merge_child vr
                               (validate re child (Some k) prop offset
                                  (node_type child, new_ValidationResult, ms)))
                      | SeenInherited \<Rightarrow> Inl (TypeError ''child.validate is not a function'')
                      | SeenUndefined \<Rightarrow>
                          Inr (removeAll propertyName unprocessedProperties, vr, ms))
                    (opt_list (kw is_Properties get_Properties (Schema ks)))
                    (map (\<lambda>p. s_value (p_key p)) properties,
                     required_check this pkey properties (Schema ks) vr, ms))
             (\<lambda>(unprocessedProperties, vr, ms).
             bindE (foldE (\<lambda>(propertyPattern, subSchema) (unprocessedProperties, vr, ms).
                      case re propertyPattern of
                        None \<Rightarrow> Inl (SyntaxError propertyPattern)
                      | Some test \<Rightarrow>
                          foldE (\<lambda>propertyName (unprocessedProperties, vr, ms).
                                   if test propertyName
                                   then (case seenKeys properties propertyName of
                                           SeenNode child k \<Rightarrow>
                                             with_unprocessed
                                               (removeAll propertyName unprocessedProperties)
                                               (merge_child vr
                                                  (validate re child (Some k) subSchema offset
                                                     (node_type child, new_ValidationResult, ms)))
                                         | SeenInherited \<Rightarrow>
                                             Inl (TypeError ''child.validate is not a function'')
                                         | SeenUndefined \<Rightarrow>
                                             Inr (removeAll propertyName unprocessedProperties,
                                                  vr, ms))
                                   else Inr (unprocessedProperties, vr, ms))
                                unprocessedProperties (unprocessedProperties, vr, ms))
                    (opt_list (kw is_PatternProperties get_PatternProperties (Schema ks)))
                    (unprocessedProperties, vr, ms))
             (\<lambda>(unprocessedProperties, vr, ms).
             bindE (case kw is_AdditionalProperties get_AdditionalProperties (Schema ks) of
                      None \<Rightarrow> Inr (vr, ms)
                    | Some (AdditionalSchema subSchema) \<Rightarrow>
                        foldE (\<lambda>propertyName (vr, ms).
                                 case seenKeys properties propertyName of
                                   SeenNode child k \<Rightarrow>
                                     merge_child vr
                                       (validate re child (Some k) subSchema offset
                                          (node_type child, new_ValidationResult, ms))
                                 | SeenInherited \<Rightarrow>
                                     Inl (TypeError ''child.validate is not a function'')
                                 | SeenUndefined \<Rightarrow> Inr (vr, ms))
                              unprocessedProperties (vr, ms)
                    | Some (AdditionalBool b) \<Rightarrow>
                        if b
                        then foldE (\<lambda>propertyName (vr, ms).
                                 case seenKeys properties propertyName of
                                   SeenNode child k \<Rightarrow>
                                     merge_child vr
                                       (validate re child (Some k) (Schema []) offset
                                          (node_type child, new_ValidationResult, ms))
                                 | SeenInherited \<Rightarrow>
                                     Inl (TypeError ''child.validate is not a function'')
                                 | SeenUndefined \<Rightarrow> Inr (vr, ms))
                              unprocessedProperties (vr, ms)
                        else Inr (disallowed_check properties unprocessedProperties vr, ms))
             (\<lambda>(vr, ms).
               foldE (\<lambda>(k, dep) (ty, vr, ms).
                        if seen_truthy (seenKeys properties k)
                        then (case dep of
                                DependencyNames valueAsArray \<Rightarrow>
                                  Inr (ty, dependency_names_check this properties k valueAsArray vr, ms)
                              | DependencySchema valueAsSchema \<Rightarrow>
                                  merge_self vr
                                    (validate re this pkey valueAsSchema offset
                                       (ty, new_ValidationResult, ms)))
                        else Inr (ty, vr, ms))
                     (opt_list (kw is_Dependencies get_Dependencies (Schema ks)))
                     (ty, object_limits this properties (Schema ks) vr, ms))))
         | _ \<Rightarrow> with_type ty
                  (case scalar_checks re this (Schema ks) vr of
                     Inl e \<Rightarrow> Inl e
                   | Inr vr' \<Rightarrow> Inr (vr', ms))))))))"
  by pat_completeness auto


lemma kw_size:
  assumes "kw d g (Schema ks) = Some v"
    and "\<And>k. d k \<Longrightarrow> v = g k \<Longrightarrow> n < size k"
  shows "n < size (Schema ks)"
proof -
  from kw_in [OF assms(1)] obtain k where k: "k \<in> set ks" "d k" "v = g k" by blast
  with assms(2) have "n < size k" by blast
  with keyword_size [OF k(1)] show ?thesis by simp
qed


lemma in_list_size: "x \<in> set xs \<Longrightarrow> f x < Suc (size_list f xs)"
  by (simp add: less_Suc_eq_le size_list_estimation')

lemma in_pairs_size: "(a, x) \<in> set xs \<Longrightarrow> f x < Suc (size_list (size_prod g f) xs)"
proof -
  assume "(a, x) \<in> set xs"
  then have "size_prod g f (a, x) < Suc (size_list (size_prod g f) xs)"
    by (rule in_list_size)
  then show ?thesis by simp
qed

lemma not_size: "kw is_Not get_Not (Schema ks) = Some x \<Longrightarrow> size x < Suc (size_list size ks)"
proof -
  assume a: "kw is_Not get_Not (Schema ks) = Some x"
  have "size x < size (Schema ks)"
  proof (rule kw_size [OF a])
    fix k assume "is_Not k" "x = get_Not k"
    then show "size x < size k" by (cases k) simp_all
  qed
  then show ?thesis by simp
qed

lemma list_kw_size:
  assumes a: "kw d g (Schema ks) = Some xs" and x: "x \<in> set xs"
    and k: "\<And>k. d k \<Longrightarrow> size_list size (g k) < size k"
  shows "size x < Suc (size_list size ks)"
proof -
  have "size x < size (Schema ks)"
  proof (rule kw_size [OF a])
    fix k assume "d k" "xs = g k"
    with x k [of k] in_list_size [of x xs size] show "size x < size k" by simp
  qed
  then show ?thesis by simp
qed

lemma allOf_size':
  "x \<in> set (opt_list (kw is_AllOf get_AllOf (Schema ks))) \<Longrightarrow> size x < Suc (size_list size ks)"
  using allOf_size [of x ks] by simp

lemma anyOf_size:
  "kw is_AnyOf get_AnyOf (Schema ks) = Some xs \<Longrightarrow> x \<in> set xs \<Longrightarrow> size x < Suc (size_list size ks)"
proof (erule list_kw_size, assumption)
  fix k assume "is_AnyOf k" then show "size_list size (get_AnyOf k) < size k" by (cases k) simp_all
qed

lemma oneOf_size:
  "kw is_OneOf get_OneOf (Schema ks) = Some xs \<Longrightarrow> x \<in> set xs \<Longrightarrow> size x < Suc (size_list size ks)"
proof (erule list_kw_size, assumption)
  fix k assume "is_OneOf k" then show "size_list size (get_OneOf k) < size k" by (cases k) simp_all
qed

lemma itemsSchema_size:
  "kw is_Items get_Items (Schema ks) = Some (ItemsSchema x) \<Longrightarrow> size x < Suc (size_list size ks)"
proof -
  assume a: "kw is_Items get_Items (Schema ks) = Some (ItemsSchema x)"
  have "size x < size (Schema ks)"
  proof (rule kw_size [OF a])
    fix k assume "is_Items k" "ItemsSchema x = get_Items k"
    then show "size x < size k" by (cases k) auto
  qed
  then show ?thesis by simp
qed

lemma itemsList_size:
  "kw is_Items get_Items (Schema ks) = Some (ItemsList xs) \<Longrightarrow> (x, i) \<in> set (zip xs js)
   \<Longrightarrow> size x < Suc (size_list size ks)"
proof -
  assume a: "kw is_Items get_Items (Schema ks) = Some (ItemsList xs)"
    and z: "(x, i) \<in> set (zip xs js)"
  from z have x: "x \<in> set xs" by (rule set_zip_leftD)
  have "size x < size (Schema ks)"
  proof (rule kw_size [OF a])
    fix k assume "is_Items k" "ItemsList xs = get_Items k"
    with in_list_size [OF x, of size] show "size x < size k" by (cases k) auto
  qed
  then show ?thesis by simp
qed

lemma properties_size:
  "(n, x) \<in> set (opt_list (kw is_Properties get_Properties (Schema ks)))
   \<Longrightarrow> size x < Suc (size_list size ks)"
proof (cases "kw is_Properties get_Properties (Schema ks)")
  case None
  assume "(n, x) \<in> set (opt_list (kw is_Properties get_Properties (Schema ks)))"
  with None show ?thesis by simp
next
  case (Some xs)
  assume "(n, x) \<in> set (opt_list (kw is_Properties get_Properties (Schema ks)))"
  with Some have x: "(n, x) \<in> set xs" by simp
  have "size x < size (Schema ks)"
  proof (rule kw_size [OF Some])
    fix k assume "is_Properties k" "xs = get_Properties k"
    with in_pairs_size [OF x, of size "\<lambda>_. 0"] show "size x < size k" by (cases k) auto
  qed
  then show ?thesis by simp
qed

lemma patternProperties_size:
  "(n, x) \<in> set (opt_list (kw is_PatternProperties get_PatternProperties (Schema ks)))
   \<Longrightarrow> size x < Suc (size_list size ks)"
proof (cases "kw is_PatternProperties get_PatternProperties (Schema ks)")
  case None
  assume "(n, x) \<in> set (opt_list (kw is_PatternProperties get_PatternProperties (Schema ks)))"
  with None show ?thesis by simp
next
  case (Some xs)
  assume "(n, x) \<in> set (opt_list (kw is_PatternProperties get_PatternProperties (Schema ks)))"
  with Some have x: "(n, x) \<in> set xs" by simp
  have "size x < size (Schema ks)"
  proof (rule kw_size [OF Some])
    fix k assume "is_PatternProperties k" "xs = get_PatternProperties k"
    with in_pairs_size [OF x, of size "\<lambda>_. 0"] show "size x < size k" by (cases k) auto
  qed
  then show ?thesis by simp
qed

lemma additionalSchema_size:
  "kw is_AdditionalProperties get_AdditionalProperties (Schema ks) = Some (AdditionalSchema x)
   \<Longrightarrow> size x < Suc (size_list size ks)"
proof -
  assume a: "kw is_AdditionalProperties get_AdditionalProperties (Schema ks) = Some (AdditionalSchema x)"
  have "size x < size (Schema ks)"
  proof (rule kw_size [OF a])
    fix k assume "is_AdditionalProperties k" "AdditionalSchema x = get_AdditionalProperties k"
    then show "size x < size k" by (cases k) auto
  qed
  then show ?thesis by simp
qed

lemma additionalBool_size:
  "kw is_AdditionalProperties get_AdditionalProperties (Schema ks) = Some a
   \<Longrightarrow> 0 < size_list size ks"
proof -
  assume "kw is_AdditionalProperties get_AdditionalProperties (Schema ks) = Some a"
  from kw_in [OF this] obtain k where "k \<in> set ks" by blast
  then show ?thesis by (cases ks) auto
qed

lemma dependencies_size:
  "(n, DependencySchema x) \<in> set (opt_list (kw is_Dependencies get_Dependencies (Schema ks)))
   \<Longrightarrow> size x < Suc (size_list size ks)"
proof (cases "kw is_Dependencies get_Dependencies (Schema ks)")
  case None
  assume "(n, DependencySchema x) \<in> set (opt_list (kw is_Dependencies get_Dependencies (Schema ks)))"
  with None show ?thesis by simp
next
  case (Some xs)
  assume "(n, DependencySchema x) \<in> set (opt_list (kw is_Dependencies get_Dependencies (Schema ks)))"
  with Some have x: "(n, DependencySchema x) \<in> set xs" by simp
  have "size x < size (Schema ks)"
  proof (rule kw_size [OF Some])
    fix k assume "is_Dependencies k" "xs = get_Dependencies k"
    with in_pairs_size [OF x, of "size_dependency size" "\<lambda>_. 0"] show "size x < size k"
      by (cases k) auto
  qed
  then show ?thesis by simp
qed

lemma property_value_size: "property_of this = Some p \<Longrightarrow> p_value p = Some v \<Longrightarrow> size v < size this"
  by (cases this; cases p) auto

termination validate
  apply (relation "inv_image (less_than <*lex*> less_than)
           (\<lambda>(re, this, pkey, schema, offset, st). (size schema, size this))")
  apply (auto simp: allOf_size' not_size anyOf_size oneOf_size itemsSchema_size itemsList_size
      properties_size patternProperties_size additionalSchema_size additionalBool_size
      dependencies_size property_value_size)
  done

declare validate.simps [simp del]

subsection \<open>The steps of validate\<close>

text \<open>
  The steps of \<open>validate\<close> by name, each with the recursive calls it makes, as they
  stand in the definition above (\<open>validate_unfold\<close> below is that definition with the
  names in place). \<open>testAlternatives\<close> is the closure of that name in
  \<^verbatim>\<open>ASTNode.validate\<close>.
\<close>

definition base_allOf ::
  "regexps \<Rightarrow> node \<Rightarrow> string_node option \<Rightarrow> schema \<Rightarrow> int \<Rightarrow> vstate \<Rightarrow> error + vstate" where
  "base_allOf re this pkey schema offset st =
     foldE (\<lambda>subSchema st. validate re this pkey subSchema offset st)
       (opt_list (kw is_AllOf get_AllOf schema)) st"

definition base_not ::
  "regexps \<Rightarrow> node \<Rightarrow> string_node option \<Rightarrow> schema \<Rightarrow> int
   \<Rightarrow> string \<Rightarrow> ValidationResult \<Rightarrow> trace \<Rightarrow> error + vstate" where
  "base_not re this pkey schema offset ty vr ms =
     (case kw is_Not get_Not schema of
        None \<Rightarrow> Inr (ty, vr, ms)
      | Some notSchema \<Rightarrow>
          apply_not this (vr, ms)
            (validate re this pkey notSchema offset (ty, new_ValidationResult, Some [])))"

definition testAlternatives ::
  "regexps \<Rightarrow> node \<Rightarrow> string_node option \<Rightarrow> schema list \<Rightarrow> bool
   \<Rightarrow> string \<Rightarrow> ValidationResult \<Rightarrow> trace \<Rightarrow> error + vstate" where
  "testAlternatives re this pkey alternatives maxOneMatch ty vr ms =
     alternatives_result this maxOneMatch (vr, ms)
       (foldE (\<lambda>subSchema (ty, acc).
                 alternative_collect maxOneMatch subSchema acc
                   (validate re this pkey subSchema (- 1) (ty, new_ValidationResult, Some [])))
              alternatives (ty, [], None))"

definition validate_items ::
  "regexps \<Rightarrow> node \<Rightarrow> node list \<Rightarrow> schema \<Rightarrow> int \<Rightarrow> ValidationResult \<Rightarrow> trace
   \<Rightarrow> error + ValidationResult \<times> trace" where
  "validate_items re this items schema offset vr ms =
     (case kw is_Items get_Items schema of
        None \<Rightarrow> Inr (vr, ms)
      | Some (ItemsList subSchemas) \<Rightarrow>
          bindE (foldE (\<lambda>(subSchema, index) (vr, ms).
                   if index < length items
                   then merge_child vr
                          (validate re (items ! index) None subSchema offset
                             (node_type (items ! index), new_ValidationResult, ms))
                   else if length items \<ge> length subSchemas
                   then Inr (vr\<lparr>propertiesValueMatches :=
                               propertiesValueMatches vr + 1\<rparr>, ms)
                   else Inr (vr, ms))
                 (zip subSchemas [0..<length subSchemas]) (vr, ms))
            (\<lambda>(vr, ms).
               Inr (additional_items_check this items subSchemas schema vr, ms))
      | Some (ItemsSchema subSchema) \<Rightarrow>
          foldE (\<lambda>item (vr, ms).
                   merge_child vr
                     (validate re item None subSchema offset
                        (node_type item, new_ValidationResult, ms)))
                items (vr, ms))"

definition validate_properties ::
  "regexps \<Rightarrow> node \<Rightarrow> string_node option \<Rightarrow> property list \<Rightarrow> schema \<Rightarrow> int
   \<Rightarrow> ValidationResult \<Rightarrow> trace \<Rightarrow> error + string list \<times> ValidationResult \<times> trace" where
  "validate_properties re this pkey properties schema offset vr ms =
     foldE (\<lambda>(propertyName, prop) (unprocessedProperties, vr, ms).
              case seenKeys properties propertyName of
                SeenNode child k \<Rightarrow>
                  with_unprocessed (removeAll propertyName unprocessedProperties)
                    (merge_child vr
                       (validate re child (Some k) prop offset
                          (node_type child, new_ValidationResult, ms)))
              | SeenInherited \<Rightarrow> Inl (TypeError ''child.validate is not a function'')
              | SeenUndefined \<Rightarrow>
                  Inr (removeAll propertyName unprocessedProperties, vr, ms))
            (opt_list (kw is_Properties get_Properties schema))
            (map (\<lambda>p. s_value (p_key p)) properties,
             required_check this pkey properties schema vr, ms)"

definition validate_patternProperties ::
  "regexps \<Rightarrow> property list \<Rightarrow> schema \<Rightarrow> int
   \<Rightarrow> string list \<Rightarrow> ValidationResult \<Rightarrow> trace
   \<Rightarrow> error + string list \<times> ValidationResult \<times> trace" where
  "validate_patternProperties re properties schema offset unprocessedProperties vr ms =
     foldE (\<lambda>(propertyPattern, subSchema) (unprocessedProperties, vr, ms).
              case re propertyPattern of
                None \<Rightarrow> Inl (SyntaxError propertyPattern)
              | Some test \<Rightarrow>
                  foldE (\<lambda>propertyName (unprocessedProperties, vr, ms).
                           if test propertyName
                           then (case seenKeys properties propertyName of
                                   SeenNode child k \<Rightarrow>
                                     with_unprocessed
                                       (removeAll propertyName unprocessedProperties)
                                       (merge_child vr
                                          (validate re child (Some k) subSchema offset
                                             (node_type child, new_ValidationResult, ms)))
                                 | SeenInherited \<Rightarrow>
                                     Inl (TypeError ''child.validate is not a function'')
                                 | SeenUndefined \<Rightarrow>
                                     Inr (removeAll propertyName unprocessedProperties,
                                          vr, ms))
                           else Inr (unprocessedProperties, vr, ms))
                        unprocessedProperties (unprocessedProperties, vr, ms))
            (opt_list (kw is_PatternProperties get_PatternProperties schema))
            (unprocessedProperties, vr, ms)"

definition validate_additionalProperties ::
  "regexps \<Rightarrow> property list \<Rightarrow> schema \<Rightarrow> int
   \<Rightarrow> string list \<Rightarrow> ValidationResult \<Rightarrow> trace
   \<Rightarrow> error + ValidationResult \<times> trace" where
  "validate_additionalProperties re properties schema offset unprocessedProperties vr ms =
     (case kw is_AdditionalProperties get_AdditionalProperties schema of
        None \<Rightarrow> Inr (vr, ms)
      | Some (AdditionalSchema subSchema) \<Rightarrow>
          foldE (\<lambda>propertyName (vr, ms).
                   case seenKeys properties propertyName of
                     SeenNode child k \<Rightarrow>
                       merge_child vr
                         (validate re child (Some k) subSchema offset
                            (node_type child, new_ValidationResult, ms))
                   | SeenInherited \<Rightarrow>
                       Inl (TypeError ''child.validate is not a function'')
                   | SeenUndefined \<Rightarrow> Inr (vr, ms))
                unprocessedProperties (vr, ms)
      | Some (AdditionalBool b) \<Rightarrow>
          if b
          then foldE (\<lambda>propertyName (vr, ms).
                   case seenKeys properties propertyName of
                     SeenNode child k \<Rightarrow>
                       merge_child vr
                         (validate re child (Some k) (Schema []) offset
                            (node_type child, new_ValidationResult, ms))
                   | SeenInherited \<Rightarrow>
                       Inl (TypeError ''child.validate is not a function'')
                   | SeenUndefined \<Rightarrow> Inr (vr, ms))
                unprocessedProperties (vr, ms)
          else Inr (disallowed_check properties unprocessedProperties vr, ms))"

definition validate_dependencies ::
  "regexps \<Rightarrow> node \<Rightarrow> string_node option \<Rightarrow> property list \<Rightarrow> schema \<Rightarrow> int
   \<Rightarrow> vstate \<Rightarrow> error + vstate" where
  "validate_dependencies re this pkey properties schema offset st =
     foldE (\<lambda>(k, dep) (ty, vr, ms).
              if seen_truthy (seenKeys properties k)
              then (case dep of
                      DependencyNames valueAsArray \<Rightarrow>
                        Inr (ty, dependency_names_check this properties k valueAsArray vr, ms)
                    | DependencySchema valueAsSchema \<Rightarrow>
                        merge_self vr
                          (validate re this pkey valueAsSchema offset
                             (ty, new_ValidationResult, ms)))
              else Inr (ty, vr, ms))
           (opt_list (kw is_Dependencies get_Dependencies schema)) st"










text \<open>
  \<open>type_kept this ty ty'\<close>: a type field that held \<open>ty\<close> holds \<open>ty'\<close>, which is
  \<open>ty\<close> again or what the node class resets it to.
\<close>

definition type_kept :: "node \<Rightarrow> string \<Rightarrow> string \<Rightarrow> bool" where
  "type_kept this ty ty' = (ty' = ty \<or> ty' = leave_type this ty)"


subsection \<open>Inputs of the examples\<close>

text \<open>
  The six limit keywords with the value 0.
\<close>

definition zero_limits :: "keyword list" where
  "zero_limits =
     [MinLength (Num 0), MaxLength (Num 0), MinItems (Num 0), MaxItems (Num 0),
      MinProperties (Num 0), MaxProperties (Num 0)]"

text \<open>
  A regular-expression runtime for the examples: it rejects the pattern \<^verbatim>\<open>(\<close>, an
  unterminated group, as every JavaScript engine does, and lets every other pattern
  match every string.
\<close>

definition rejects_open_group :: regexps where
  "rejects_open_group p = (if p = ''('' then None else Some (\<lambda>s. True))"

section \<open>Properties of the validation result\<close>

text \<open>
  C2. \<^verbatim>\<open>compare\<close> ranks two results by the four criteria in order (no error or warning,
  enum match, higher propertiesValueMatches, higher propertiesMatches); the number it
  returns is positive exactly when the receiver wins, negative exactly when the argument
  wins, and zero exactly on a complete tie.
\<close>

theorem compare_ranks:
  "(0 < compare a b) = ranks_above a b
   \<and> (compare a b < 0) = ranks_above b a
   \<and> (compare a b = 0) = complete_tie a b"
  by (auto simp: compare_def ranks_above_def complete_tie_def clean_def hasErrors_def Let_def)

theorem compare_ranks_witness:
  "compare (new_ValidationResult\<lparr>propertiesValueMatches := 2\<rparr>)
           (new_ValidationResult\<lparr>propertiesValueMatches := 1, propertiesMatches := 5\<rparr>) = 1
   \<and> ranks_above (new_ValidationResult\<lparr>propertiesValueMatches := 2\<rparr>)
           (new_ValidationResult\<lparr>propertiesValueMatches := 1, propertiesMatches := 5\<rparr>)"
  using compare_ranks [of "new_ValidationResult\<lparr>propertiesValueMatches := 2\<rparr>"
      "new_ValidationResult\<lparr>propertiesValueMatches := 1, propertiesMatches := 5\<rparr>"]
  by (simp add: compare_def new_ValidationResult_def hasErrors_def)

text \<open>
  C3. \<^verbatim>\<open>mergePropertyMatch\<close> appends the child's errors and warnings to the parent's,
  adds exactly 1 to propertiesMatches, and adds exactly 1 to propertiesValueMatches if
  and only if the child had an enum match, or had neither errors nor warnings and a
  propertiesMatches of at least 1 (otherwise it adds 0).
\<close>

theorem mergePropertyMatch_effect:
  "errors (mergePropertyMatch parent child) = errors parent @ errors child
   \<and> warnings (mergePropertyMatch parent child) = warnings parent @ warnings child
   \<and> propertiesMatches (mergePropertyMatch parent child) = propertiesMatches parent + 1
   \<and> propertiesValueMatches (mergePropertyMatch parent child) =
       propertiesValueMatches parent
       + (if enumValueMatch child
             \<or> (errors child = [] \<and> warnings child = [] \<and> 1 \<le> propertiesMatches child)
          then 1 else 0)
   \<and> enumValueMatch (mergePropertyMatch parent child) = enumValueMatch parent"
  by (auto simp: mergePropertyMatch_def merge_def hasErrors_def Let_def)

theorem mergePropertyMatch_effect_witness:
  "propertiesMatches (mergePropertyMatch new_ValidationResult
      (new_ValidationResult\<lparr>propertiesMatches := 1\<rparr>)) = 1
   \<and> propertiesValueMatches (mergePropertyMatch new_ValidationResult
      (new_ValidationResult\<lparr>propertiesMatches := 1\<rparr>)) = 1
   \<and> propertiesValueMatches (mergePropertyMatch new_ValidationResult new_ValidationResult) = 0"
  using mergePropertyMatch_effect [of new_ValidationResult
      "new_ValidationResult\<lparr>propertiesMatches := 1\<rparr>"]
    mergePropertyMatch_effect [of new_ValidationResult new_ValidationResult]
  by (simp add: new_ValidationResult_def)

section \<open>Properties of the node model\<close>

lemma findNode_None_iff: "findNode offset n = None \<longleftrightarrow> \<not> contains n offset False"
  by (subst findNode.simps) (simp add: contains_def split: option.splits)

lemma findNode_loop_None:
  "sorted (map node_start cs) \<Longrightarrow> findNode_loop offset cs = None
   \<Longrightarrow> \<forall>c \<in> set cs. \<not> contains c offset False"
proof (induction cs)
  case Nil
  then show ?case by simp
next
  case (Cons c cs)
  show ?case
  proof (cases "node_start c \<le> offset")
    case True
    with Cons.prems have c: "findNode offset c = None" and rest: "findNode_loop offset cs = None"
      by (auto split: option.splits)
    from Cons.prems have "sorted (map node_start cs)" by simp
    with Cons.IH rest have "\<forall>c \<in> set cs. \<not> contains c offset False" by blast
    with c show ?thesis by (simp add: findNode_None_iff)
  next
    case False
    with Cons.prems have "\<forall>d \<in> set cs. offset < node_start d" by fastforce
    with False show ?thesis by (auto simp: contains_def)
  qed
qed

definition deepest_at :: "int \<Rightarrow> node \<Rightarrow> bool" where
  "deepest_at offset r =
     (contains r offset False \<and> list_all (\<lambda>c. \<not> contains c offset False) (getChildNodes r))"

lemma findNode_deepest:
  "node_invariant n \<longrightarrow> findNode offset n = Some r \<longrightarrow> deepest_at offset r"
  and findNode_loop_deepest:
  "list_all node_invariant cs \<longrightarrow> findNode_loop offset cs = Some r \<longrightarrow> deepest_at offset r"
proof (induction offset n and offset cs rule: findNode_findNode_loop.induct)
  case (1 offset node)
  show ?case
  proof (intro impI)
    assume inv: "node_invariant node" and res: "findNode offset node = Some r"
    from res have inside: "offset \<ge> node_start node \<and> offset < node_end node"
      by (subst (asm) findNode.simps) (simp split: if_splits)
    from inv have kids: "list_all node_invariant (getChildNodes node)"
      and srt: "sorted (map node_start (getChildNodes node))"
      by (subst (asm) node_invariant.simps, simp add: list_all_iff)+
    show "deepest_at offset r"
    proof (cases "findNode_loop offset (getChildNodes node)")
      case None
      with res inside have "r = node" by (subst (asm) findNode.simps) simp
      moreover from findNode_loop_None [OF srt None]
      have "list_all (\<lambda>c. \<not> contains c offset False) (getChildNodes node)"
        by (simp add: list_all_iff)
      ultimately show ?thesis using inside by (simp add: deepest_at_def contains_def)
    next
      case (Some item)
      with res inside have "r = item" by (subst (asm) findNode.simps) simp
      with 1 inside kids Some show ?thesis by simp
    qed
  qed
next
  case (2 offset)
  show ?case by simp
next
  case (3 offset c cs)
  show ?case
  proof (intro impI)
    assume inv: "list_all node_invariant (c # cs)"
      and res: "findNode_loop offset (c # cs) = Some r"
    from res have le: "node_start c \<le> offset"
      by (simp split: if_splits)
    show "deepest_at offset r"
    proof (cases "findNode offset c")
      case None
      with res le have "findNode_loop offset cs = Some r" by simp
      with 3(2) [OF le None] inv show ?thesis by simp
    next
      case (Some item)
      with res le have "r = item" by simp
      with 3(1) [OF le] inv Some show ?thesis by simp
    qed
  qed
qed

text \<open>
  C5. On a tree that satisfies the invariant of the node model, a node returned by
  \<^verbatim>\<open>getNodeFromOffset\<close> contains the offset and none of its children does.
\<close>

theorem getNodeFromOffset_deepest:
  assumes "node_invariant tree"
    and "getNodeFromOffset tree offset = Some r"
  shows "contains r offset False \<and> (\<forall>c \<in> set (getChildNodes r). \<not> contains c offset False)"
  using findNode_deepest [of tree offset r] assms
  by (simp add: getNodeFromOffset_def deepest_at_def list_all_iff)

theorem getNodeFromOffset_deepest_witness:
  "node_invariant
     (ObjectASTNode 0 20
        [Property 2 9 (StringNode 2 3 True ''a'')
           (Some (ArrayASTNode 5 9 [NumberASTNode 6 7 True (Num 1)]))])
   \<and> getNodeFromOffset
     (ObjectASTNode 0 20
        [Property 2 9 (StringNode 2 3 True ''a'')
           (Some (ArrayASTNode 5 9 [NumberASTNode 6 7 True (Num 1)]))]) 6
       = Some (NumberASTNode 6 7 True (Num 1))
   \<and> contains (NumberASTNode 6 7 True (Num 1)) 6 False"
  using getNodeFromOffset_deepest [of
      "ObjectASTNode 0 20
        [Property 2 9 (StringNode 2 3 True ''a'')
           (Some (ArrayASTNode 5 9 [NumberASTNode 6 7 True (Num 1)]))]"
      6 "NumberASTNode 6 7 True (Num 1)"]
  by (simp add: findNode.simps getNodeFromOffset_def
      node_invariant.simps [of "ObjectASTNode s e ps" for s e ps]
      node_invariant.simps [of "PropertyASTNode p" for p]
      node_invariant.simps [of "ArrayASTNode s e ns" for s e ns]
      node_invariant.simps [of "NumberASTNode s e i v" for s e i v]
      node_invariant.simps [of "StringASTNode k" for k])

text \<open>
  C9. The builder calls on an \<^verbatim>\<open>undefined\<close> operand: \<^verbatim>\<open>addItem\<close> and \<^verbatim>\<open>addProperty\<close>
  reject it and return false, while \<^verbatim>\<open>setKey\<close> and \<^verbatim>\<open>setValue\<close> store it and return
  true, since they guard with \<^verbatim>\<open>!= null\<close> but return \<^verbatim>\<open>!== null\<close>.
\<close>

theorem setKey_setValue_undefined:
  "setKey this Undefined = (this\<lparr>pf_key := Undefined\<rparr>, True)
   \<and> setValue this Undefined = Inr (this\<lparr>pf_value := Undefined\<rparr>, True)
   \<and> setKey this Null = (this\<lparr>pf_key := Null\<rparr>, False)
   \<and> setValue this Null = Inr (this\<lparr>pf_value := Null\<rparr>, False)
   \<and> addItem items Undefined = (items, False)
   \<and> addProperty properties Undefined = (properties, False)"
  by (simp add: setKey_def setValue_def addItem_def addProperty_def)

theorem setKey_setValue_undefined_witness:
  "snd (setKey new_PropertyASTNode Undefined) = True
   \<and> (case setValue new_PropertyASTNode Undefined of
         Inr (this, accepted) \<Rightarrow> accepted | Inl e \<Rightarrow> False)"
  using setKey_setValue_undefined [of new_PropertyASTNode]
  by simp

section \<open>Properties of validate\<close>

lemmas validate_eval =
  validate.simps kw_def contains_def type_check_def apply_not_def alternative_step_def
  alternative_collect_def alternatives_finish_def alternatives_result_def enum_check_def
  record_match_def typeIsInteger_def number_checks_def string_limits_def pattern_check_def
  additional_items_check_def array_limits_def seenKeys_def required_check_def
  disallowed_check_def object_limits_def dependency_names_check_def bindE_def merge_child_def
  merge_self_def with_unprocessed_def keep_type_def with_type_def push_warning_def warn_def
  errorMessage_or_def push_all_def invert_def new_ValidationResult_def hasErrors_def merge_def
  mergePropertyMatch_def compare_def object_prototype_names_def

text \<open>
  C1. The offset is not handed to the alternatives of \<^verbatim>\<open>anyOf\<close> and \<^verbatim>\<open>oneOf\<close>. An
  array spans 0 to 10 and holds two strings, at 1..3 and at 5..7; the offset is 1.
  Under \<^verbatim>\<open>anyOf\<close> the string at 5..7, which does not contain the offset, is validated
  and gets a warning. Under \<^verbatim>\<open>allOf\<close>, which hands the offset on, only the string at
  1..3 is validated.
\<close>

theorem alternatives_ignore_offset:
  "validate re
     (ArrayASTNode 0 10
        [StringASTNode (StringNode 1 3 False ''a''), StringASTNode (StringNode 5 7 False ''b'')])
     None (Schema [AnyOf [Schema [Items (ItemsSchema (Schema [Type (JStr ''number'')]))]]]) 1
     (''array'', new_ValidationResult, None)
   = Inr (''array'',
          new_ValidationResult\<lparr>warnings :=
            [\<lparr>location = \<lparr>range_start = 1, range_end = 3\<rparr>,
              message = Localize ''typeMismatchWarning'' [ArgVal (JStr ''number'')]\<rparr>,
             \<lparr>location = \<lparr>range_start = 5, range_end = 7\<rparr>,
              message = Localize ''typeMismatchWarning'' [ArgVal (JStr ''number'')]\<rparr>],
            propertiesMatches := 2\<rparr>,
          None)
   \<and> validate re
     (ArrayASTNode 0 10
        [StringASTNode (StringNode 1 3 False ''a''), StringASTNode (StringNode 5 7 False ''b'')])
     None (Schema [AllOf [Schema [Items (ItemsSchema (Schema [Type (JStr ''number'')]))]]]) 1
     (''array'', new_ValidationResult, None)
   = Inr (''array'',
          new_ValidationResult\<lparr>warnings :=
            [\<lparr>location = \<lparr>range_start = 1, range_end = 3\<rparr>,
              message = Localize ''typeMismatchWarning'' [ArgVal (JStr ''number'')]\<rparr>],
            propertiesMatches := 2\<rparr>,
          None)"
  by (simp add: validate_eval)

theorem alternatives_ignore_offset_witness:
  "validate rejects_open_group
     (ArrayASTNode 0 10
        [StringASTNode (StringNode 1 3 False ''a''), StringASTNode (StringNode 5 7 False ''b'')])
     None (Schema [AnyOf [Schema [Items (ItemsSchema (Schema [Type (JStr ''number'')]))]]]) 1
     (''array'', new_ValidationResult, None)
   \<noteq> validate rejects_open_group
     (ArrayASTNode 0 10
        [StringASTNode (StringNode 1 3 False ''a''), StringASTNode (StringNode 5 7 False ''b'')])
     None (Schema [AllOf [Schema [Items (ItemsSchema (Schema [Type (JStr ''number'')]))]]]) 1
     (''array'', new_ValidationResult, None)"
  using alternatives_ignore_offset [of rejects_open_group]
  by (simp add: new_ValidationResult_def)

text \<open>
  C8. The diagnostics of \<^verbatim>\<open>allOf\<close> depend on the order of the sub-schemas. The node is
  the integer 5 and the schema has type \<^verbatim>\<open>integer\<close>, so the number node sets its type to
  \<^verbatim>\<open>'integer'\<close>; the first sub-schema of \<^verbatim>\<open>allOf\<close> is validated while the type still is
  \<^verbatim>\<open>'integer'\<close>, and its validation sets the type to \<^verbatim>\<open>'number'\<close> for the second. With
  the sub-schemas \<^verbatim>\<open>{type: "number"}\<close> and \<^verbatim>\<open>{}\<close> in this order there is one warning; in
  the other order there is none.
\<close>

theorem allOf_order_dependent:
  "validate re (NumberASTNode 0 1 True (Num 5)) None
     (Schema [Type (JStr ''integer''), AllOf [Schema [Type (JStr ''number'')], Schema []]])
     (- 1) (''number'', new_ValidationResult, None)
   = Inr (''number'',
          new_ValidationResult\<lparr>warnings :=
            [\<lparr>location = \<lparr>range_start = 0, range_end = 1\<rparr>,
              message = Localize ''typeMismatchWarning'' [ArgVal (JStr ''number'')]\<rparr>]\<rparr>,
          None)
   \<and> validate re (NumberASTNode 0 1 True (Num 5)) None
     (Schema [Type (JStr ''integer''), AllOf [Schema [], Schema [Type (JStr ''number'')]]])
     (- 1) (''number'', new_ValidationResult, None)
   = Inr (''number'', new_ValidationResult, None)"
  by (simp add: validate_eval)

theorem allOf_order_dependent_witness:
  "validate rejects_open_group (NumberASTNode 0 1 True (Num 5)) None
     (Schema [Type (JStr ''integer''), AllOf [Schema [Type (JStr ''number'')], Schema []]])
     (- 1) (''number'', new_ValidationResult, None)
   \<noteq> validate rejects_open_group (NumberASTNode 0 1 True (Num 5)) None
     (Schema [Type (JStr ''integer''), AllOf [Schema [], Schema [Type (JStr ''number'')]]])
     (- 1) (''number'', new_ValidationResult, None)"
  using allOf_order_dependent [of rejects_open_group]
  by (simp add: new_ValidationResult_def)

lemma zero_limits_cases:
  assumes "k \<in> set zero_limits"
  obtains "k = MinLength (Num 0)" | "k = MaxLength (Num 0)" | "k = MinItems (Num 0)"
    | "k = MaxItems (Num 0)" | "k = MinProperties (Num 0)" | "k = MaxProperties (Num 0)"
  using assms by (auto simp: zero_limits_def)

lemma zero_limit_string:
  assumes "k \<in> set zero_limits"
  shows "\<exists>ty' vr' ms'.
      validate re (StringASTNode sn) pkey (Schema [k]) offset (ty, vr, ms) = Inr (ty', vr', ms')
      \<and> errors vr' = errors vr \<and> warnings vr' = warnings vr"
  using assms by (rule zero_limits_cases) (simp_all add: validate_eval)

lemma zero_limit_array:
  assumes "k \<in> set zero_limits"
  shows "\<exists>ty' vr' ms'.
      validate re (ArrayASTNode s e items) pkey (Schema [k]) offset (ty, vr, ms) = Inr (ty', vr', ms')
      \<and> errors vr' = errors vr \<and> warnings vr' = warnings vr"
  using assms by (rule zero_limits_cases) (simp_all add: validate_eval)

lemma zero_limit_object:
  assumes "k \<in> set zero_limits"
  shows "\<exists>ty' vr' ms'.
      validate re (ObjectASTNode s e properties) pkey (Schema [k]) offset (ty, vr, ms)
        = Inr (ty', vr', ms')
      \<and> errors vr' = errors vr \<and> warnings vr' = warnings vr"
  using assms by (rule zero_limits_cases) (simp_all add: validate_eval)

text \<open>
  C10. A string, array or object node validated against a schema that holds only one
  of the limit keywords minLength, maxLength, minItems, maxItems, minProperties,
  maxProperties with the value 0 returns normally and gets no error and no warning,
  whatever its length or count.
\<close>

theorem zero_limit_no_constraint:
  assumes "k \<in> set zero_limits"
    and "this = StringASTNode sn \<or> this = ArrayASTNode s e items
         \<or> this = ObjectASTNode s e properties"
  shows "\<exists>ty' vr' ms'.
      validate re this pkey (Schema [k]) offset (ty, vr, ms) = Inr (ty', vr', ms')
      \<and> errors vr' = errors vr \<and> warnings vr' = warnings vr"
  using assms(2)
proof (elim disjE)
  assume "this = StringASTNode sn"
  with zero_limit_string [OF assms(1)] show ?thesis by simp
next
  assume "this = ArrayASTNode s e items"
  with zero_limit_array [OF assms(1)] show ?thesis by simp
next
  assume "this = ObjectASTNode s e properties"
  with zero_limit_object [OF assms(1)] show ?thesis by simp
qed

theorem zero_limit_no_constraint_witness:
  "MaxItems (Num 0) \<in> set zero_limits
   \<and> (\<exists>ty' vr' ms'.
        validate rejects_open_group (ArrayASTNode 0 10 [NullASTNode 1 5, NullASTNode 6 9]) None
          (Schema [MaxItems (Num 0)]) (- 1) (''array'', new_ValidationResult, None)
          = Inr (ty', vr', ms')
        \<and> errors vr' = [] \<and> warnings vr' = [])"
  using zero_limit_no_constraint [of "MaxItems (Num 0)"
      "ArrayASTNode 0 10 [NullASTNode 1 5, NullASTNode 6 9]" undefined 0 10
      "[NullASTNode 1 5, NullASTNode 6 9]" undefined rejects_open_group None "- 1"
      "''array''" new_ValidationResult None]
  by (simp add: zero_limits_def new_ValidationResult_def)

subsection \<open>validate, step by step\<close>

lemmas validate_steps =
  base_allOf_def base_not_def testAlternatives_def validate_items_def validate_properties_def
  validate_patternProperties_def validate_additionalProperties_def validate_dependencies_def

lemma validate_unfold:
  "validate re this pkey (Schema ks) offset (ty, validationResult, matchingSchemas) =
   (if offset \<noteq> - 1 \<and> \<not> contains this offset False
    then Inr (ty, validationResult, matchingSchemas)
    else case property_of this of
      Some p \<Rightarrow>
        (case p_value p of
           None \<Rightarrow> Inr (ty, validationResult, matchingSchemas)
         | Some v \<Rightarrow>
             keep_type ty (validate re v (Some (p_key p)) (Schema ks) offset
               (node_type v, validationResult, matchingSchemas)))
    | None \<Rightarrow>
      bindE (base_allOf re this pkey (Schema ks) offset
               (enter_type this (Schema ks) ty,
                type_check this (enter_type this (Schema ks) ty) (Schema ks) validationResult,
                matchingSchemas))
      (\<lambda>(ty, vr, ms).
      bindE (base_not re this pkey (Schema ks) offset ty vr ms)
      (\<lambda>(ty, vr, ms).
      bindE (case kw is_AnyOf get_AnyOf (Schema ks) of
               None \<Rightarrow> Inr (ty, vr, ms)
             | Some alternatives \<Rightarrow> testAlternatives re this pkey alternatives False ty vr ms)
      (\<lambda>(ty, vr, ms).
      bindE (case kw is_OneOf get_OneOf (Schema ks) of
               None \<Rightarrow> Inr (ty, vr, ms)
             | Some alternatives \<Rightarrow> testAlternatives re this pkey alternatives True ty vr ms)
      (\<lambda>(ty1, vr1, ms1).
        (let vr = enum_check this (Schema ks) vr1;
             ms = record_match this (Schema ks) ms1;
             ty = leave_type this ty1
         in case this of
           ArrayASTNode s e items \<Rightarrow>
             bindE (validate_items re this items (Schema ks) offset vr ms)
               (\<lambda>(vr, ms). Inr (ty, array_limits this items (Schema ks) vr, ms))
         | ObjectASTNode s e properties \<Rightarrow>
             bindE (validate_properties re this pkey properties (Schema ks) offset vr ms)
             (\<lambda>(unprocessedProperties, vr, ms).
             bindE (validate_patternProperties re properties (Schema ks) offset
                      unprocessedProperties vr ms)
             (\<lambda>(unprocessedProperties, vr, ms).
             bindE (validate_additionalProperties re properties (Schema ks) offset
                      unprocessedProperties vr ms)
             (\<lambda>(vr, ms).
               validate_dependencies re this pkey properties (Schema ks) offset
                 (ty, object_limits this properties (Schema ks) vr, ms))))
         | _ \<Rightarrow> with_type ty
                  (case scalar_checks re this (Schema ks) vr of
                     Inl e \<Rightarrow> Inl e
                   | Inr vr' \<Rightarrow> Inr (vr', ms))))))))"
  unfolding validate_steps by (rule validate.simps)



subsection \<open>The alternatives of oneOf\<close>












subsection \<open>The faults of validate\<close>



lemma bindE_Inr: "bindE m f = Inr r \<Longrightarrow> \<exists>x. m = Inr x \<and> f x = Inr r"
  by (cases m) (simp_all add: bindE_def)
























lemma bindE_Inl3:
  "bindE m (\<lambda>(a, b, c). f a b c) = Inl e \<Longrightarrow> m = Inl e \<or> (\<exists>a b c. f a b c = Inl e)"
  by (cases m) (auto simp: bindE_def)






lemma validate_early: 
  "offset \<noteq> - 1 \<and> \<not> contains this offset False
   \<Longrightarrow> validate re this pkey (Schema ks) offset (ty, vr, ms) = Inr (ty, vr, ms)"
  by (subst validate_unfold) simp








subsection \<open>The type field after validate\<close>

lemma type_kept_refl: "type_kept this ty ty"
  by (simp add: type_kept_def)

lemma type_kept_trans:
  "type_kept this a b \<Longrightarrow> type_kept this b c \<Longrightarrow> type_kept this a c"
  by (cases this) (auto simp: type_kept_def)

lemma type_kept_final:
  "type_kept this (enter_type this schema ty) a \<Longrightarrow> type_kept this (leave_type this a) b
   \<Longrightarrow> type_kept this ty b"
  by (cases this) (auto simp: type_kept_def)

lemma foldE_rel:
  assumes "foldE f xs s = Inr s'"
    and "\<And>x a b. x \<in> set xs \<Longrightarrow> f x a = Inr b \<Longrightarrow> R a b"
    and "\<And>a. R a a"
    and "\<And>a b c. R a b \<Longrightarrow> R b c \<Longrightarrow> R a c"
  shows "R s s'"
  using assms(1,2)
proof (induction xs arbitrary: s)
  case Nil
  with assms(3) show ?case by simp
next
  case (Cons x xs)
  from Cons.prems(1) obtain m where m: "f x s = Inr m" and rest: "foldE f xs m = Inr s'"
    by (auto split: sum.splits)
  from Cons.prems(2) [of x s m] m have "R s m" by simp
  moreover have "R m s'"
  proof (rule Cons.IH [OF rest])
    fix y a b
    assume "y \<in> set xs" "f y a = Inr b"
    with Cons.prems(2) [of y a b] show "R a b" by simp
  qed
  ultimately show ?case by (rule assms(4))
qed

lemma apply_not_Inr: "apply_not this outer r = Inr st' \<Longrightarrow> \<exists>x. r = Inr x \<and> fst st' = fst x"
  by (cases r) (auto simp: apply_not_def split: prod.splits)

lemma alternative_collect_Inr:
  "alternative_collect m s acc r = Inr st' \<Longrightarrow> \<exists>x. r = Inr x \<and> fst st' = fst x"
  by (cases r) (auto simp: alternative_collect_def split: prod.splits)

lemma alternatives_result_Inr:
  "alternatives_result this m outer r = Inr st' \<Longrightarrow> \<exists>x. r = Inr x \<and> fst st' = fst x"
  by (cases r) (auto simp: alternatives_result_def split: prod.splits)

lemma merge_self_Inr: "merge_self vr r = Inr st' \<Longrightarrow> \<exists>x. r = Inr x \<and> fst st' = fst x"
  by (cases r) (auto simp: merge_self_def split: prod.splits)

lemma with_type_Inr: "with_type ty r = Inr st' \<Longrightarrow> fst st' = ty"
  by (cases r) (auto simp: with_type_def split: prod.splits)

lemma keep_type_Inr: "keep_type ty r = Inr st' \<Longrightarrow> fst st' = ty"
  by (cases r) (auto simp: keep_type_def split: prod.splits)

lemma base_allOf_type:
  assumes H: "\<And>n pk sub off ty vr ms r. size sub < size (Schema ks)
      \<Longrightarrow> validate re n pk sub off (ty, vr, ms) = Inr r \<Longrightarrow> type_kept n ty (fst r)"
    and run: "base_allOf re this pkey (Schema ks) offset st = Inr st'"
  shows "type_kept this (fst st) (fst st')"
proof (rule foldE_rel [OF run [unfolded base_allOf_def],
      where R = "\<lambda>a b. type_kept this (fst a) (fst b)"])
  fix x a b
  assume x: "x \<in> set (opt_list (kw is_AllOf get_AllOf (Schema ks)))"
    and f: "validate re this pkey x offset a = Inr b"
  from allOf_size' [OF x] have lt: "size x < size (Schema ks)" by simp
  obtain ty vr ms where a: "a = (ty, vr, ms)" by (cases a)
  from H [OF lt f [unfolded a]] a show "type_kept this (fst a) (fst b)" by simp
qed (auto intro: type_kept_refl type_kept_trans)

lemma base_not_type:
  assumes H: "\<And>n pk sub off ty vr ms r. size sub < size (Schema ks)
      \<Longrightarrow> validate re n pk sub off (ty, vr, ms) = Inr r \<Longrightarrow> type_kept n ty (fst r)"
    and run: "base_not re this pkey (Schema ks) offset ty vr ms = Inr st'"
  shows "type_kept this ty (fst st')"
proof (cases "kw is_Not get_Not (Schema ks)")
  case None
  with run show ?thesis by (auto simp: base_not_def type_kept_refl)
next
  case (Some x)
  with run obtain r where
    f: "validate re this pkey x offset (ty, new_ValidationResult, Some []) = Inr r"
    and r: "fst st' = fst r"
    by (auto simp: base_not_def dest!: apply_not_Inr)
  from not_size [OF Some] have "size x < size (Schema ks)" by simp
  from H [OF this f] r show ?thesis by simp
qed

lemma testAlternatives_type:
  assumes H: "\<And>x n pk off ty vr ms r. x \<in> set alternatives
      \<Longrightarrow> validate re n pk x off (ty, vr, ms) = Inr r \<Longrightarrow> type_kept n ty (fst r)"
    and run: "testAlternatives re this pkey alternatives m ty vr ms = Inr st'"
  shows "type_kept this ty (fst st')"
proof -
  from run obtain r where
    loop: "foldE (\<lambda>subSchema (ty, acc).
                 alternative_collect m subSchema acc
                   (validate re this pkey subSchema (- 1) (ty, new_ValidationResult, Some [])))
              alternatives (ty, [], None) = Inr r"
    and r: "fst st' = fst r"
    unfolding testAlternatives_def by (blast dest: alternatives_result_Inr)
  have "type_kept this (fst (ty, ([] :: schema list), (None :: best option))) (fst r)"
  proof (rule foldE_rel [OF loop, where R = "\<lambda>a b. type_kept this (fst a) (fst b)"])
    fix x a b
    assume x: "x \<in> set alternatives"
      and f: "(case a of (ty, acc) \<Rightarrow> alternative_collect m x acc
                (validate re this pkey x (- 1) (ty, new_ValidationResult, Some []))) = Inr b"
    obtain t acc where a: "a = (t, acc)" by (cases a)
    from f a obtain v where
      g: "validate re this pkey x (- 1) (t, new_ValidationResult, Some []) = Inr v"
      and v: "fst b = fst v"
      by (auto dest!: alternative_collect_Inr)
    from H [OF x g] a v show "type_kept this (fst a) (fst b)" by simp
  qed (auto intro: type_kept_refl type_kept_trans)
  with r show ?thesis by simp
qed

lemma anyOf_type:
  assumes H: "\<And>n pk sub off ty vr ms r. size sub < size (Schema ks)
      \<Longrightarrow> validate re n pk sub off (ty, vr, ms) = Inr r \<Longrightarrow> type_kept n ty (fst r)"
    and run: "(case kw is_AnyOf get_AnyOf (Schema ks) of
            None \<Rightarrow> Inr (ty, vr, ms)
          | Some alternatives \<Rightarrow> testAlternatives re this pkey alternatives m ty vr ms) = Inr st'"
  shows "type_kept this ty (fst st')"
proof (cases "kw is_AnyOf get_AnyOf (Schema ks)")
  case None
  with run show ?thesis by (auto simp: type_kept_refl)
next
  case (Some alts)
  have "\<And>x n pk off ty vr ms r. x \<in> set alts
      \<Longrightarrow> validate re n pk x off (ty, vr, ms) = Inr r \<Longrightarrow> type_kept n ty (fst r)"
  proof -
    fix x n pk off ty vr ms r
    assume x: "x \<in> set alts" and f: "validate re n pk x off (ty, vr, ms) = Inr r"
    from anyOf_size [OF Some x] have "size x < size (Schema ks)" by simp
    from H [OF this f] show "type_kept n ty (fst r)" .
  qed
  from testAlternatives_type [OF this] run Some show ?thesis by simp
qed

lemma oneOf_type:
  assumes H: "\<And>n pk sub off ty vr ms r. size sub < size (Schema ks)
      \<Longrightarrow> validate re n pk sub off (ty, vr, ms) = Inr r \<Longrightarrow> type_kept n ty (fst r)"
    and run: "(case kw is_OneOf get_OneOf (Schema ks) of
            None \<Rightarrow> Inr (ty, vr, ms)
          | Some alternatives \<Rightarrow> testAlternatives re this pkey alternatives m ty vr ms) = Inr st'"
  shows "type_kept this ty (fst st')"
proof (cases "kw is_OneOf get_OneOf (Schema ks)")
  case None
  with run show ?thesis by (auto simp: type_kept_refl)
next
  case (Some alts)
  have "\<And>x n pk off ty vr ms r. x \<in> set alts
      \<Longrightarrow> validate re n pk x off (ty, vr, ms) = Inr r \<Longrightarrow> type_kept n ty (fst r)"
  proof -
    fix x n pk off ty vr ms r
    assume x: "x \<in> set alts" and f: "validate re n pk x off (ty, vr, ms) = Inr r"
    from oneOf_size [OF Some x] have "size x < size (Schema ks)" by simp
    from H [OF this f] show "type_kept n ty (fst r)" .
  qed
  from testAlternatives_type [OF this] run Some show ?thesis by simp
qed

lemma validate_dependencies_type:
  assumes H: "\<And>n pk sub off ty vr ms r. size sub < size (Schema ks)
      \<Longrightarrow> validate re n pk sub off (ty, vr, ms) = Inr r \<Longrightarrow> type_kept n ty (fst r)"
    and run: "validate_dependencies re this pkey properties (Schema ks) offset st = Inr st'"
  shows "type_kept this (fst st) (fst st')"
proof (rule foldE_rel [OF run [unfolded validate_dependencies_def],
      where R = "\<lambda>a b. type_kept this (fst a) (fst b)"])
  fix x a b
  assume x: "x \<in> set (opt_list (kw is_Dependencies get_Dependencies (Schema ks)))"
    and f: "(case x of (k, dep) \<Rightarrow> \<lambda>(ty, vr, ms).
              if seen_truthy (seenKeys properties k)
              then (case dep of
                      DependencyNames valueAsArray \<Rightarrow>
                        Inr (ty, dependency_names_check this properties k valueAsArray vr, ms)
                    | DependencySchema valueAsSchema \<Rightarrow>
                        merge_self vr
                          (validate re this pkey valueAsSchema offset
                             (ty, new_ValidationResult, ms)))
              else Inr (ty, vr, ms)) a = Inr b"
  obtain k dep where xk: "x = (k, dep)" by (cases x)
  obtain ty vr ms where a: "a = (ty, vr, ms)" by (cases a)
  show "type_kept this (fst a) (fst b)"
  proof (cases dep)
    case (DependencyNames names)
    with f xk a show ?thesis by (auto simp: type_kept_refl split: if_splits)
  next
    case (DependencySchema sub)
    from dependencies_size [of k sub ks] x xk DependencySchema
    have lt: "size sub < size (Schema ks)" by simp
    show ?thesis
    proof (cases "seen_truthy (seenKeys properties k)")
      case True
      with f xk a DependencySchema obtain v where
        g: "validate re this pkey sub offset (ty, new_ValidationResult, ms) = Inr v"
        and v: "fst b = fst v"
        by (auto dest!: merge_self_Inr)
      from H [OF lt g] a v show ?thesis by simp
    next
      case False
      with f xk a show ?thesis by (auto simp: type_kept_refl)
    qed
  qed
qed (auto intro: type_kept_refl type_kept_trans)

lemma base_chain_Inr:
  assumes "bindE A (\<lambda>(a, b, c). bindE (B a b c) (\<lambda>(a, b, c). bindE (C a b c)
             (\<lambda>(a, b, c). bindE (D a b c) (\<lambda>(a, b, c). F a b c)))) = Inr r"
  obtains a1 b1 c1 a2 b2 c2 a3 b3 c3 a4 b4 c4 where
    "A = Inr (a1, b1, c1)" "B a1 b1 c1 = Inr (a2, b2, c2)" "C a2 b2 c2 = Inr (a3, b3, c3)"
    "D a3 b3 c3 = Inr (a4, b4, c4)" "F a4 b4 c4 = Inr r"
  using assms by (auto simp: bindE_def split: sum.splits)

lemma object_chain_Inr:
  assumes "bindE A (\<lambda>(a, b, c). bindE (B a b c) (\<lambda>(a, b, c). bindE (C a b c)
             (\<lambda>(a, b). D a b))) = Inr r"
  obtains a b where "D a b = Inr r"
  using assms by (auto simp: bindE_def split: sum.splits)

lemma validate_type_step:
  assumes H: "\<And>n pk sub off ty vr ms r. size sub < size (Schema ks)
      \<Longrightarrow> validate re n pk sub off (ty, vr, ms) = Inr r \<Longrightarrow> type_kept n ty (fst r)"
    and run: "validate re this pkey (Schema ks) offset (ty, vr, ms) = Inr r"
  shows "type_kept this ty (fst r)"
proof (cases "offset \<noteq> - 1 \<and> \<not> contains this offset False")
  case True
  from validate_early [OF True, of re pkey ks ty vr ms] run show ?thesis
    by (auto simp: type_kept_refl)
next
  case late: False
  note u = validate_unfold [of re this pkey ks offset ty vr ms]
  show ?thesis
  proof (cases "property_of this")
    case (Some p)
    note r = run [unfolded u if_not_P [OF late] Some option.case]
    from r have "fst r = ty"
      by (cases "p_value p") (auto dest!: keep_type_Inr)
    then show ?thesis by (simp add: type_kept_refl)
  next
    case None
    note chain = run [unfolded u if_not_P [OF late] None option.case]
    from chain obtain a1 b1 c1 a2 b2 c2 a3 b3 c3 a4 b4 c4 where
      s1: "base_allOf re this pkey (Schema ks) offset
               (enter_type this (Schema ks) ty,
                type_check this (enter_type this (Schema ks) ty) (Schema ks) vr, ms)
           = Inr (a1, b1, c1)"
      and s2: "base_not re this pkey (Schema ks) offset a1 b1 c1 = Inr (a2, b2, c2)"
      and s3: "(case kw is_AnyOf get_AnyOf (Schema ks) of
               None \<Rightarrow> Inr (a2, b2, c2)
             | Some alternatives \<Rightarrow> testAlternatives re this pkey alternatives False a2 b2 c2)
           = Inr (a3, b3, c3)"
      and s4: "(case kw is_OneOf get_OneOf (Schema ks) of
               None \<Rightarrow> Inr (a3, b3, c3)
             | Some alternatives \<Rightarrow> testAlternatives re this pkey alternatives True a3 b3 c3)
           = Inr (a4, b4, c4)"
      and last: "(let vr = enum_check this (Schema ks) b4;
             ms = record_match this (Schema ks) c4;
             ty = leave_type this a4
         in case this of
           ArrayASTNode s e items \<Rightarrow>
             bindE (validate_items re this items (Schema ks) offset vr ms)
               (\<lambda>(vr, ms). Inr (ty, array_limits this items (Schema ks) vr, ms))
         | ObjectASTNode s e properties \<Rightarrow>
             bindE (validate_properties re this pkey properties (Schema ks) offset vr ms)
             (\<lambda>(unprocessedProperties, vr, ms).
             bindE (validate_patternProperties re properties (Schema ks) offset
                      unprocessedProperties vr ms)
             (\<lambda>(unprocessedProperties, vr, ms).
             bindE (validate_additionalProperties re properties (Schema ks) offset
                      unprocessedProperties vr ms)
             (\<lambda>(vr, ms).
               validate_dependencies re this pkey properties (Schema ks) offset
                 (ty, object_limits this properties (Schema ks) vr, ms))))
         | _ \<Rightarrow> with_type ty
                  (case scalar_checks re this (Schema ks) vr of
                     Inl e \<Rightarrow> Inl e
                   | Inr vr' \<Rightarrow> Inr (vr', ms))) = Inr r"
      by (rule base_chain_Inr)
    from base_allOf_type [OF H s1] have k1: "type_kept this (enter_type this (Schema ks) ty) a1"
      by simp
    from base_not_type [OF H s2] have k2: "type_kept this a1 a2" by simp
    from anyOf_type [OF H s3] have k3: "type_kept this a2 a3" by simp
    from oneOf_type [OF H s4] have k4: "type_kept this a3 a4" by simp
    from k1 k2 k3 k4 have k: "type_kept this (enter_type this (Schema ks) ty) a4"
      by (blast intro: type_kept_trans)
    have "type_kept this (leave_type this a4) (fst r)"
    proof (cases this)
      case (ArrayASTNode s1 e1 items)
      with last have "fst r = leave_type this a4"
        by (auto simp: Let_def bindE_def split: sum.splits)
      then show ?thesis by (simp add: type_kept_refl)
    next
      case (ObjectASTNode s1 e1 properties)
      with last have obj: "bindE (validate_properties re this pkey properties (Schema ks) offset
                 (enum_check this (Schema ks) b4) (record_match this (Schema ks) c4))
             (\<lambda>(unprocessedProperties, vr, ms).
             bindE (validate_patternProperties re properties (Schema ks) offset
                      unprocessedProperties vr ms)
             (\<lambda>(unprocessedProperties, vr, ms).
             bindE (validate_additionalProperties re properties (Schema ks) offset
                      unprocessedProperties vr ms)
             (\<lambda>(vr, ms).
               validate_dependencies re this pkey properties (Schema ks) offset
                 (leave_type this a4, object_limits this properties (Schema ks) vr, ms))))
             = Inr r"
        by (simp add: Let_def)
      from obj obtain a b where
        "validate_dependencies re this pkey properties (Schema ks) offset
           (leave_type this a4, object_limits this properties (Schema ks) a, b) = Inr r"
        by (rule object_chain_Inr)
      from validate_dependencies_type [OF H this] show ?thesis by simp
    next
      case (NullASTNode s1 e1)
      with last have "fst r = leave_type this a4"
        by (auto simp: Let_def dest!: with_type_Inr)
      then show ?thesis by (simp add: type_kept_refl)
    next
      case (BooleanASTNode s1 e1 b)
      with last have "fst r = leave_type this a4"
        by (auto simp: Let_def dest!: with_type_Inr)
      then show ?thesis by (simp add: type_kept_refl)
    next
      case (NumberASTNode s1 e1 i v)
      with last have "fst r = leave_type this a4"
        by (auto simp: Let_def dest!: with_type_Inr)
      then show ?thesis by (simp add: type_kept_refl)
    next
      case (StringASTNode k)
      with last have "fst r = leave_type this a4"
        by (auto simp: Let_def dest!: with_type_Inr)
      then show ?thesis by (simp add: type_kept_refl)
    next
      case (PropertyASTNode p)
      with None show ?thesis by simp
    qed
    with k show ?thesis by (rule type_kept_final)
  qed
qed

lemma validate_type_kept:
  "validate re this pkey schema offset (ty, vr, ms) = Inr r \<Longrightarrow> type_kept this ty (fst r)"
proof (induction schema arbitrary: this pkey offset ty vr ms r rule: measure_induct_rule [of size])
  case (less schema)
  obtain ks where ks: "schema = Schema ks" by (cases schema)
  show ?case
  proof (rule validate_type_step [where ks = ks])
    show "validate re this pkey (Schema ks) offset (ty, vr, ms) = Inr r"
      using less.prems ks by simp
  next
    fix n pk sub off ty' vr' ms' r'
    assume "size sub < size (Schema ks)" "validate re n pk sub off (ty', vr', ms') = Inr r'"
    with less.IH ks show "type_kept n ty' (fst r')" by blast
  qed
qed


lemma validate_type_restored:
  assumes "validate re this pkey schema offset (node_type this, vr, ms) = Inr (ty', vr', ms')"
  shows "ty' = node_type this"
  using validate_type_kept [OF assms] by (cases this) (auto simp: type_kept_def)

text \<open>
  C7. A call of \<open>validate\<close> can leave the node changed, and the same node and schema
  validated twice can give different diagnostics. The node is the integer 5. For the
  schema \<^verbatim>\<open>{type: "integer", allOf: [{type: "number"}, {type: "number"}]}\<close> the number
  node sets its type to \<^verbatim>\<open>'integer'\<close> and \<^verbatim>\<open>allOf\<close> calls \<open>validate\<close> on the node twice
  with the schema \<^verbatim>\<open>{type: "number"}\<close>. The first of these calls is entered with the
  type \<^verbatim>\<open>'integer'\<close>: it adds a type warning and returns with the type \<^verbatim>\<open>'number'\<close>. The
  second, on the same node and schema, is entered with the type \<^verbatim>\<open>'number'\<close> and adds
  nothing. The whole validation ends with the one warning.
\<close>

theorem nested_validate_changes_type:
  "validate re (NumberASTNode 0 1 True (Num 5)) None (Schema [Type (JStr ''number'')]) (- 1)
     (''integer'', new_ValidationResult, None)
   = Inr (''number'',
          new_ValidationResult\<lparr>warnings :=
            [\<lparr>location = \<lparr>range_start = 0, range_end = 1\<rparr>,
              message = Localize ''typeMismatchWarning'' [ArgVal (JStr ''number'')]\<rparr>]\<rparr>,
          None)
   \<and> validate re (NumberASTNode 0 1 True (Num 5)) None (Schema [Type (JStr ''number'')]) (- 1)
     (''number'', new_ValidationResult, None)
   = Inr (''number'', new_ValidationResult, None)
   \<and> validate re (NumberASTNode 0 1 True (Num 5)) None
     (Schema [Type (JStr ''integer''),
              AllOf [Schema [Type (JStr ''number'')], Schema [Type (JStr ''number'')]]])
     (- 1) (''number'', new_ValidationResult, None)
   = Inr (''number'',
          new_ValidationResult\<lparr>warnings :=
            [\<lparr>location = \<lparr>range_start = 0, range_end = 1\<rparr>,
              message = Localize ''typeMismatchWarning'' [ArgVal (JStr ''number'')]\<rparr>]\<rparr>,
          None)"
  by (simp add: validate_eval)

theorem nested_validate_changes_type_witness:
  "(\<exists>vr' ms'.
      validate rejects_open_group (NumberASTNode 0 1 True (Num 5)) None
        (Schema [Type (JStr ''number'')]) (- 1) (''integer'', new_ValidationResult, None)
      = Inr (''number'', vr', ms') \<and> length (warnings vr') = 1)
   \<and> (\<exists>vr' ms'.
      validate rejects_open_group (NumberASTNode 0 1 True (Num 5)) None
        (Schema [Type (JStr ''number'')]) (- 1) (''number'', new_ValidationResult, None)
      = Inr (''number'', vr', ms') \<and> length (warnings vr') = 0)"
  using nested_validate_changes_type [of rejects_open_group]
  by (simp add: new_ValidationResult_def)

end
